theory Spec2Isabelle
  imports Main "HOL-Library.Sublist"
begin

section \<open>Debugger status: the generated string table\<close>

text \<open>
  \<^verbatim>\<open>Status\<close> is a Go integer type whose constants \<^verbatim>\<open>NotInit\<close> .. \<^verbatim>\<open>StatusN\<close> are
  0 .. 7 (the generated index check in \<^verbatim>\<open>part_000\<close> pins these values). Only
  comparisons and \<^verbatim>\<open>i+1\<close> for \<^verbatim>\<open>0 \<le> i < 8\<close> are performed on it, so it is an \<open>int\<close>.
\<close>

type_synonym Status = int

definition NotInit :: Status where "NotInit = 0"
definition Error :: Status where "Error = 1"
definition Building :: Status where "Building = 2"
definition Ready :: Status where "Ready = 3"
definition Running :: Status where "Running = 4"
definition Stopped :: Status where "Stopped = 5"
definition Finished :: Status where "Finished = 6"
definition StatusN :: Status where "StatusN = 7"

definition Status_name :: string where
  "Status_name = ''NotInitErrorBuildingReadyRunningStoppedFinishedStatusN''"

definition Status_index :: "nat list" where
  "Status_index = [0, 7, 12, 20, 25, 32, 39, 47, 54]"

text \<open>Go's \<^verbatim>\<open>s[lo:hi]\<close> on a string, for \<^verbatim>\<open>lo \<le> hi \<le> len(s)\<close>.\<close>

definition substr :: "string \<Rightarrow> nat \<Rightarrow> nat \<Rightarrow> string" where
  "substr s lo hi = take (hi - lo) (drop lo s)"

text \<open>\<^verbatim>\<open>strconv.FormatInt(i, 10)\<close>: the decimal digits of an integer.\<close>

fun digits10 :: "nat \<Rightarrow> string" where
  "digits10 n =
     (if n < 10 then [''0123456789'' ! n]
      else digits10 (n div 10) @ [''0123456789'' ! (n mod 10)])"

declare digits10.simps [simp del]

definition FormatInt :: "int \<Rightarrow> string" where
  "FormatInt i = (if i < 0 then CHR ''-'' # digits10 (nat (- i)) else digits10 (nat i))"

definition Status_String :: "Status \<Rightarrow> string" where
  "Status_String i =
     (if i < 0 \<or> i \<ge> int (length Status_index - 1)
      then ''Status('' @ FormatInt i @ '')''
      else substr Status_name (Status_index ! nat i) (Status_index ! nat (i + 1)))"

text \<open>
  \<^verbatim>\<open>FromString\<close> has a pointer receiver: the model takes the receiver's current value
  and returns the error (if any) together with the receiver's value after the call.
  The loop \<^verbatim>\<open>for j := 0; j < len(_Status_index)-1; j++\<close> is \<open>FromString_loop\<close>.
\<close>

function FromString_loop :: "string \<Rightarrow> nat \<Rightarrow> nat option" where
  "FromString_loop s j =
     (if j < length Status_index - 1
      then (if s = substr Status_name (Status_index ! j) (Status_index ! (j + 1))
            then Some j
            else FromString_loop s (j + 1))
      else None)"
  by pat_completeness auto
termination
  by (relation "measure (\<lambda>(s, j). length Status_index - 1 - j)") auto

declare FromString_loop.simps [simp del]

definition Status_FromString :: "Status \<Rightarrow> string \<Rightarrow> string option \<times> Status" where
  "Status_FromString i s =
     (case FromString_loop s 0 of
        Some j \<Rightarrow> (None, int j)
      | None \<Rightarrow> (Some (''String: '' @ s @ '' is not a valid option for type: Status''), i))"

text \<open>The members of the enumeration, and their names as the table spells them.\<close>

definition Status_members :: "Status list" where
  "Status_members = [NotInit, Error, Building, Ready, Running, Stopped, Finished, StatusN]"

definition Status_names :: "string list" where
  "Status_names = [''NotInit'', ''Error'', ''Building'', ''Ready'', ''Running'',
                   ''Stopped'', ''Finished'', ''StatusN'']"

section \<open>Debugger variables: bounded rendering\<close>

text \<open>
  \<^verbatim>\<open>Variable\<close> embeds \<^verbatim>\<open>ki.Node\<close>, of which \<^verbatim>\<open>ValueString\<close> reads the name \<^verbatim>\<open>Nm\<close> and the
  ordered children \<^verbatim>\<open>Kids\<close>. The fields that \<^verbatim>\<open>ValueString\<close> never reads are left out.
  \<^verbatim>\<open>Kind\<close> is a value of the integer enumeration \<^verbatim>\<open>syms.Kinds\<close> of another package; its
  predicate \<^verbatim>\<open>IsPtr\<close> is a parameter \<open>isPtr\<close> of the model. Go iterates over a map in an
  unspecified order: \<^verbatim>\<open>Map\<close> and \<^verbatim>\<open>MapVar\<close> are association lists, read in the order the
  iteration happens to take.
\<close>

type_synonym Kinds = int

datatype Variable = Variable
  (Nm: string) (Value: string) (TypeStr: string) (Kind: Kinds) (ElValue: string)
  (List: "string list") (Map: "(string \<times> string) list")
  (MapVar: "(string \<times> Variable) list") (Kids: "Variable list")

text \<open>
  \<^verbatim>\<open>indent.String(indent.Space, n, 2)\<close> of the indent package the file imports: \<open>n\<close>
  times two spaces. The renderer takes the indent function as the parameter \<open>ind\<close>.
\<close>

definition indent_String :: "int \<Rightarrow> string" where
  "indent_String n = replicate (nat (n * 2)) CHR '' ''"

definition LF :: string where
  "LF = [CHR 0x0A]"

text \<open>The loop over \<^verbatim>\<open>vr.List\<close> (lines 91-96): every element, with its index.\<close>

fun List_loop :: "nat \<Rightarrow> nat \<Rightarrow> string list \<Rightarrow> string \<Rightarrow> string" where
  "List_loop i lln [] b = b"
| "List_loop i lln (el # els) b =
     (let b1 = b @ digits10 i @ '': '' @ el
      in List_loop (i + 1) lln els (if int i < int lln - 1 then b1 @ '', '' else b1))"

text \<open>The loop over \<^verbatim>\<open>vr.Map\<close> (lines 100-102).\<close>

fun Map_loop :: "(string \<times> string) list \<Rightarrow> string \<Rightarrow> string" where
  "Map_loop [] b = b"
| "Map_loop ((k, v) # kvs) b = Map_loop kvs (b @ k @ '': '' @ v @ '', '')"

text \<open>
  \<^verbatim>\<open>ValueString\<close> with its two loops that recurse into sub-variables: \<open>MapVar_loop\<close>
  (lines 106-119) and \<open>Kids_loop\<close> (lines 121-137). Each loop takes the builder \<open>b\<close> and
  returns it together with a flag telling whether the loop was left by \<^verbatim>\<open>break\<close>.
\<close>

function (sequential)
  ValueString :: "(Kinds \<Rightarrow> bool) \<Rightarrow> (int \<Rightarrow> string) \<Rightarrow> Variable \<Rightarrow>
                  bool \<Rightarrow> int \<Rightarrow> int \<Rightarrow> int \<Rightarrow> bool \<Rightarrow> string"
and MapVar_loop :: "(Kinds \<Rightarrow> bool) \<Rightarrow> (int \<Rightarrow> string) \<Rightarrow> (string \<times> Variable) list \<Rightarrow>
                  bool \<Rightarrow> int \<Rightarrow> int \<Rightarrow> int \<Rightarrow> string \<Rightarrow> string \<times> bool"
and Kids_loop :: "(Kinds \<Rightarrow> bool) \<Rightarrow> (int \<Rightarrow> string) \<Rightarrow> Variable list \<Rightarrow>
                  bool \<Rightarrow> int \<Rightarrow> int \<Rightarrow> int \<Rightarrow> string \<Rightarrow> string \<times> bool"
where
  "ValueString isPtr ind (Variable nm val ts kd elv lst mp mv kids)
       newlines ident maxdepth maxlen outType =
     (if val \<noteq> [] then val
      else if elv \<noteq> [] then elv
      else if isPtr kd \<and> length kids = 1
        then ''*'' @ ValueString isPtr ind (hd kids) newlines ident maxdepth maxlen True
      else
        (let b0 = (if outType then ts else []) @ '' {''
         in if ident > maxdepth
            then b0 @ ''...'' @ (if newlines then LF @ ind ident else []) @ ''}''
            else
              (let b1 = List_loop 0 (length lst) lst b0;
                   b2 = Map_loop mp b1;
                   b3 = fst (MapVar_loop isPtr ind mv newlines ident maxdepth maxlen b2);
                   b4 = fst (Kids_loop isPtr ind kids newlines ident maxdepth maxlen b3)
               in b4 @ (if newlines then LF @ ind ident else []) @ ''}'')))"
| "MapVar_loop isPtr ind [] newlines ident maxdepth maxlen b = (b, False)"
| "MapVar_loop isPtr ind ((k, ve) # rest) newlines ident maxdepth maxlen b =
     (let b1 = (if newlines then b @ LF @ ind (ident + 1) else b) @ k @ '': '';
          b2 = b1 @ ValueString isPtr ind ve newlines (ident + 1) maxdepth maxlen False
      in if int (length b2) > maxlen then (b2 @ ''...'', True)
         else MapVar_loop isPtr ind rest newlines ident maxdepth maxlen
                (if \<not> newlines then b2 @ '', '' else b2))"
| "Kids_loop isPtr ind [] newlines ident maxdepth maxlen b = (b, False)"
| "Kids_loop isPtr ind (ve # rest) newlines ident maxdepth maxlen b =
     (let b1 = (if newlines then b @ LF @ ind (ident + 1) else b);
          b2 = (if Nm ve \<noteq> [] then b1 @ Nm ve @ '': '' else b1);
          b3 = b2 @ ValueString isPtr ind ve newlines (ident + 1) maxdepth maxlen True
      in if int (length b3) > maxlen then (b3 @ ''...'', True)
         else Kids_loop isPtr ind rest newlines ident maxdepth maxlen
                (if \<not> newlines then b3 @ '', '' else b3))"
  by pat_completeness auto
termination
proof (relation "measure (\<lambda>x. case x of
          Inl (_, _, vr, _) \<Rightarrow> size vr
        | Inr (Inl (_, _, mv, _)) \<Rightarrow> size_list (size_prod (\<lambda>_. 0) size) mv
        | Inr (Inr (_, _, kids, _)) \<Rightarrow> size_list size kids)", goal_cases)
  case 1
  show ?case by simp
next
  case (2 isPtr ind nm val ts kd elv lst mp mv kids newlines ident maxdepth maxlen outType)
  then show ?case by (cases kids) auto
qed auto

text \<open>
  Two pieces of the aggregate branch, named for the statements below: the builder once
  the type name, the opening brace, the flat list and the primitive map are written
  (lines 75-103), and what is written after the last loop (lines 138-142).
\<close>

definition flat_part :: "bool \<Rightarrow> string \<Rightarrow> string list \<Rightarrow> (string \<times> string) list \<Rightarrow> string" where
  "flat_part outType ts lst mp =
     Map_loop mp (List_loop 0 (length lst) lst ((if outType then ts else []) @ '' {''))"

definition closing :: "(int \<Rightarrow> string) \<Rightarrow> bool \<Rightarrow> int \<Rightarrow> string" where
  "closing ind newlines ident = (if newlines then LF @ ind ident else []) @ ''}''"

text \<open>
  The same rendering written out, for comparison with the loops. The flat list is its
  elements as \<^verbatim>\<open>index: element\<close> joined by \<^verbatim>\<open>, \<close>; the primitive map is its entries as
  \<^verbatim>\<open>key: value, \<close> one after the other.
\<close>

definition list_render :: "string list \<Rightarrow> string" where
  "list_render lst =
     concat (map (\<lambda>(i, el). digits10 i @ '': '' @ el @ (if i + 1 < length lst then '', '' else []))
                 (enumerate 0 lst))"

definition map_render :: "(string \<times> string) list \<Rightarrow> string" where
  "map_render mp = concat (map (\<lambda>(k, v). k @ '': '' @ v @ '', '') mp)"

definition flat_render :: "bool \<Rightarrow> string \<Rightarrow> string list \<Rightarrow> (string \<times> string) list \<Rightarrow> string" where
  "flat_render outType ts lst mp =
     (if outType then ts else []) @ '' {'' @ list_render lst @ map_render mp"

text \<open>
  What one pass of a loop body writes before its length test: the builder after the
  nested-map entry \<open>kv\<close> (lines 107-112) and after the child \<open>ve\<close> (lines 123-130); and
  the separator written when the test does not fire (lines 116-117, 134-135).
\<close>

definition MapVar_entry :: "(Kinds \<Rightarrow> bool) \<Rightarrow> (int \<Rightarrow> string) \<Rightarrow> string \<times> Variable \<Rightarrow>
                            bool \<Rightarrow> int \<Rightarrow> int \<Rightarrow> int \<Rightarrow> string \<Rightarrow> string" where
  "MapVar_entry isPtr ind kv newlines ident maxdepth maxlen b =
     (if newlines then b @ LF @ ind (ident + 1) else b) @ fst kv @ '': '' @
     ValueString isPtr ind (snd kv) newlines (ident + 1) maxdepth maxlen False"

definition Kids_entry :: "(Kinds \<Rightarrow> bool) \<Rightarrow> (int \<Rightarrow> string) \<Rightarrow> Variable \<Rightarrow>
                          bool \<Rightarrow> int \<Rightarrow> int \<Rightarrow> int \<Rightarrow> string \<Rightarrow> string" where
  "Kids_entry isPtr ind ve newlines ident maxdepth maxlen b =
     (if newlines then b @ LF @ ind (ident + 1) else b) @
     (if Nm ve \<noteq> [] then Nm ve @ '': '' else []) @
     ValueString isPtr ind ve newlines (ident + 1) maxdepth maxlen True"

definition entry_sep :: "bool \<Rightarrow> string" where
  "entry_sep newlines = (if \<not> newlines then '', '' else [])"

text \<open>
  The builder after all entries of a list are written with no length test at all, and
  the builder right after entry \<open>j\<close> is written when no test fired before it.
\<close>

fun MapVar_plain :: "(Kinds \<Rightarrow> bool) \<Rightarrow> (int \<Rightarrow> string) \<Rightarrow> (string \<times> Variable) list \<Rightarrow>
                     bool \<Rightarrow> int \<Rightarrow> int \<Rightarrow> int \<Rightarrow> string \<Rightarrow> string" where
  "MapVar_plain isPtr ind [] newlines ident maxdepth maxlen b = b"
| "MapVar_plain isPtr ind (kv # rest) newlines ident maxdepth maxlen b =
     MapVar_plain isPtr ind rest newlines ident maxdepth maxlen
       (MapVar_entry isPtr ind kv newlines ident maxdepth maxlen b @ entry_sep newlines)"

fun Kids_plain :: "(Kinds \<Rightarrow> bool) \<Rightarrow> (int \<Rightarrow> string) \<Rightarrow> Variable list \<Rightarrow>
                   bool \<Rightarrow> int \<Rightarrow> int \<Rightarrow> int \<Rightarrow> string \<Rightarrow> string" where
  "Kids_plain isPtr ind [] newlines ident maxdepth maxlen b = b"
| "Kids_plain isPtr ind (ve # rest) newlines ident maxdepth maxlen b =
     Kids_plain isPtr ind rest newlines ident maxdepth maxlen
       (Kids_entry isPtr ind ve newlines ident maxdepth maxlen b @ entry_sep newlines)"

definition MapVar_upto :: "(Kinds \<Rightarrow> bool) \<Rightarrow> (int \<Rightarrow> string) \<Rightarrow> (string \<times> Variable) list \<Rightarrow>
                           bool \<Rightarrow> int \<Rightarrow> int \<Rightarrow> int \<Rightarrow> string \<Rightarrow> nat \<Rightarrow> string" where
  "MapVar_upto isPtr ind mv newlines ident maxdepth maxlen b j =
     MapVar_entry isPtr ind (mv ! j) newlines ident maxdepth maxlen
       (MapVar_plain isPtr ind (take j mv) newlines ident maxdepth maxlen b)"

definition Kids_upto :: "(Kinds \<Rightarrow> bool) \<Rightarrow> (int \<Rightarrow> string) \<Rightarrow> Variable list \<Rightarrow>
                         bool \<Rightarrow> int \<Rightarrow> int \<Rightarrow> int \<Rightarrow> string \<Rightarrow> nat \<Rightarrow> string" where
  "Kids_upto isPtr ind kids newlines ident maxdepth maxlen b j =
     Kids_entry isPtr ind (kids ! j) newlines ident maxdepth maxlen
       (Kids_plain isPtr ind (take j kids) newlines ident maxdepth maxlen b)"

text \<open>Sample nodes: scalar leaves with a pre-set value.\<close>

definition leaf :: "string \<Rightarrow> string \<Rightarrow> Variable" where
  "leaf nm v = Variable nm v ''int'' 0 [] [] [] [] []"

definition noPtr :: "Kinds \<Rightarrow> bool" where
  "noPtr k = False"

text \<open>A sample \<^verbatim>\<open>IsPtr\<close> that takes kind 1 for the pointer kind.\<close>

definition ptrKind :: "Kinds \<Rightarrow> bool" where
  "ptrKind k = (k = 1)"

section \<open>Byte and string helpers of the Go library\<close>

text \<open>
  Byte slices read as values and Go strings are both \<open>string\<close> (a list of bytes).
  \<^verbatim>\<open>strings.Contains\<close> / \<^verbatim>\<open>bytes.Contains\<close>, \<^verbatim>\<open>strings.HasPrefix\<close> (\<open>prefix\<close>),
  \<^verbatim>\<open>strings.TrimPrefix\<close>, \<^verbatim>\<open>strings.Join\<close> / \<^verbatim>\<open>bytes.Join\<close>, \<^verbatim>\<open>bytes.Split\<close> on a
  one-byte separator.
\<close>

fun Contains :: "string \<Rightarrow> string \<Rightarrow> bool" where
  "Contains [] sub = (sub = [])"
| "Contains (c # cs) sub = (prefix sub (c # cs) \<or> Contains cs sub)"

definition TrimPrefix :: "string \<Rightarrow> string \<Rightarrow> string" where
  "TrimPrefix s p = (if prefix p s then drop (length p) s else s)"

fun Join :: "string list \<Rightarrow> string \<Rightarrow> string" where
  "Join [] sep = []"
| "Join [x] sep = x"
| "Join (x # y # ys) sep = x @ sep @ Join (y # ys) sep"

fun Split_acc :: "char \<Rightarrow> string \<Rightarrow> string \<Rightarrow> string list" where
  "Split_acc sep cur [] = [cur]"
| "Split_acc sep cur (c # cs) =
     (if c = sep then cur # Split_acc sep [] cs else Split_acc sep (cur @ [c]) cs)"

definition Split :: "string \<Rightarrow> char \<Rightarrow> string list" where
  "Split s sep = Split_acc sep [] s"

text \<open>
  \<^verbatim>\<open>bytes.Fields\<close> splits around runs of white space as \<^verbatim>\<open>unicode.IsSpace\<close> defines it
  on the UTF-8 code points of the bytes: the six ASCII characters tab, line feed,
  vertical tab, form feed, carriage return and space, and U+0085, U+00A0, U+1680,
  U+2000 to U+200A, U+2028, U+2029, U+202F, U+205F and U+3000. \<open>space_runes\<close> lists
  their UTF-8 encodings. Each multi-byte encoding starts with a lead byte and goes on
  with continuation bytes (\<^verbatim>\<open>0x80\<close> to \<^verbatim>\<open>0xBF\<close>), so no valid code point of another
  character and no second space overlaps an occurrence, and the decoder, which
  advances by a whole valid code point or by one byte, stops at the start of every
  occurrence: the white space of a byte string is exactly the occurrences of these
  encodings, and a field is a maximal run of the other bytes.
\<close>

definition space_runes :: "string list" where
  "space_runes =
     [[CHR 0x09], [CHR 0x0A], [CHR 0x0B], [CHR 0x0C], [CHR 0x0D], [CHR 0x20],
      [CHR 0xC2, CHR 0x85], [CHR 0xC2, CHR 0xA0], [CHR 0xE1, CHR 0x9A, CHR 0x80],
      [CHR 0xE2, CHR 0x80, CHR 0x80], [CHR 0xE2, CHR 0x80, CHR 0x81],
      [CHR 0xE2, CHR 0x80, CHR 0x82], [CHR 0xE2, CHR 0x80, CHR 0x83],
      [CHR 0xE2, CHR 0x80, CHR 0x84], [CHR 0xE2, CHR 0x80, CHR 0x85],
      [CHR 0xE2, CHR 0x80, CHR 0x86], [CHR 0xE2, CHR 0x80, CHR 0x87],
      [CHR 0xE2, CHR 0x80, CHR 0x88], [CHR 0xE2, CHR 0x80, CHR 0x89],
      [CHR 0xE2, CHR 0x80, CHR 0x8A], [CHR 0xE2, CHR 0x80, CHR 0xA8],
      [CHR 0xE2, CHR 0x80, CHR 0xA9], [CHR 0xE2, CHR 0x80, CHR 0xAF],
      [CHR 0xE2, CHR 0x81, CHR 0x9F], [CHR 0xE3, CHR 0x80, CHR 0x80]]"

text \<open>The number of bytes of the white-space character at the head of \<open>s\<close>; 0 if none.\<close>

definition space_width :: "string \<Rightarrow> nat" where
  "space_width s =
     (case find (\<lambda>enc. prefix enc s) space_runes of None \<Rightarrow> 0 | Some enc \<Rightarrow> length enc)"

text \<open>
  \<open>cur\<close> is the field being read and \<open>skip\<close> the number of bytes of the current
  white-space character that are still to be passed over.
\<close>

fun Fields_acc :: "string \<Rightarrow> nat \<Rightarrow> string \<Rightarrow> string list" where
  "Fields_acc cur skip [] = (if cur = [] then [] else [cur])"
| "Fields_acc cur skip (c # cs) =
     (if skip > 0 then Fields_acc cur (skip - 1) cs
      else (let w = space_width (c # cs)
            in if w > 0 then (if cur = [] then Fields_acc [] (w - 1) cs
                              else cur # Fields_acc [] (w - 1) cs)
               else Fields_acc (cur @ [c]) 0 cs))"

definition Fields :: "string \<Rightarrow> string list" where
  "Fields s = Fields_acc [] 0 s"

section \<open>Output annotator\<close>

text \<open>
  \<^verbatim>\<open>ArgVarVals\<close> is the package-level map from placeholder to value; reading a missing
  key of a Go map gives the empty string. Two functions of the standard library are
  parameters: \<^verbatim>\<open>bytes.Fields\<close> is \<open>fieldsf\<close> (with \<open>Fields\<close> above as its model) and
  \<^verbatim>\<open>filepath.Join\<close> is \<open>fjoin\<close>.
\<close>

type_synonym ArgVals = "string \<rightharpoonup> string"

definition lookup :: "ArgVals \<Rightarrow> string \<Rightarrow> string" where
  "lookup vals k = (case vals k of None \<Rightarrow> [] | Some v \<Rightarrow> v)"

definition dq :: string where
  "dq = [CHR 0x22]"

text \<open>Lines 365: the test on a field. Lines 368-390: the link that replaces it.\<close>

definition looks_like_file :: "string \<Rightarrow> bool" where
  "looks_like_file ff = (Contains ff ''.'' \<or> Contains ff ''/'')"

definition Markup_link :: "ArgVals \<Rightarrow> (string \<Rightarrow> string \<Rightarrow> string) \<Rightarrow> string \<Rightarrow> string" where
  "Markup_link vals fjoin ff =
     (let fnflds = Split ff CHR '':'';
          fn = fnflds ! 0;
          pos = (if length fnflds > 1 then fnflds ! 1 else []);
          col = (if length fnflds > 2 then fnflds ! 2 else []);
          cpath = lookup vals ''{FileDirPath}'';
          fn = (if \<not> prefix cpath fn then fjoin cpath (TrimPrefix fn ''./'') else fn)
      in if col \<noteq> [] then
           ''<a href='' @ dq @ ''file:///'' @ fn @ ''#L'' @ pos @ ''C'' @ col @ dq @ ''>'' @ ff @ ''</a>''
         else if pos \<noteq> [] then
           ''<a href='' @ dq @ ''file:///'' @ fn @ ''#L'' @ pos @ dq @ ''>'' @ ff @ ''</a>''
         else
           ''<a href='' @ dq @ ''file:///'' @ fn @ dq @ ''>'' @ ff @ ''</a>'')"

text \<open>The loop \<^verbatim>\<open>for i := 0; i < mx; i++\<close> with its \<^verbatim>\<open>continue\<close> and \<^verbatim>\<open>break\<close>.\<close>

function Markup_loop :: "ArgVals \<Rightarrow> (string \<Rightarrow> string \<Rightarrow> string) \<Rightarrow> string list \<Rightarrow>
                         nat \<Rightarrow> nat \<Rightarrow> string list" where
  "Markup_loop vals fjoin flds i mx =
     (if i < mx then
        (let ff = flds ! i
         in if \<not> looks_like_file ff then Markup_loop vals fjoin flds (i + 1) mx
            else flds[i := Markup_link vals fjoin ff])
      else flds)"
  by pat_completeness auto
termination
  by (relation "measure (\<lambda>(vals, fjoin, flds, i, mx). mx - i)") auto

declare Markup_loop.simps [simp del]

definition MarkupCmdOutput :: "(string \<Rightarrow> string list) \<Rightarrow> ArgVals \<Rightarrow>
                               (string \<Rightarrow> string \<Rightarrow> string) \<Rightarrow> string \<Rightarrow> string" where
  "MarkupCmdOutput fieldsf vals fjoin out =
     (let flds = fieldsf out
      in if length flds = 0 then out
         else Join (Markup_loop vals fjoin flds 0 (min (length flds) 2)) '' '')"

text \<open>
  \<^verbatim>\<open>filepath.Join\<close> on two elements that need no lexical clean-up: empty elements are
  dropped, the others are joined by the separator. Used for the sample runs.
\<close>

definition join2 :: "string \<Rightarrow> string \<Rightarrow> string" where
  "join2 a b = (if a = [] then b else if b = [] then a else a @ ''/'' @ b)"

section \<open>Command registry: the version-control filter\<close>

text \<open>A Go run-time panic ends the process; the model returns it as a value.\<close>

datatype panic = SliceBoundsOutOfRange | IndexOutOfRange | NilPointerDereference

text \<open>
  \<^verbatim>\<open>VersCtrlSystems\<close> is a package-level list of system names declared in another file of
  the package; it is the parameter \<open>systems\<close>. \<^verbatim>\<open>VersCtrlName\<close> is a string type.

  The inner loop (lines 464-470) runs over all systems and removes index \<open>i\<close> at every
  system other than \<open>vcnm\<close> that the name \<open>cmd\<close> (read once, before the loop) contains:
  \<^verbatim>\<open>cmds = append(cmds[:i], cmds[i+1:]...)\<close>. The slice expression \<^verbatim>\<open>cmds[i+1:]\<close> panics
  when \<open>i + 1\<close> exceeds the current length.
\<close>

fun VersCtrl_inner :: "string \<Rightarrow> string \<Rightarrow> string list \<Rightarrow> nat \<Rightarrow> string list \<Rightarrow>
                       panic + string list" where
  "VersCtrl_inner vcnm cmd [] i cmds = Inr cmds"
| "VersCtrl_inner vcnm cmd (vcs # rest) i cmds =
     (if vcs \<noteq> vcnm \<and> Contains cmd vcs
      then (if i + 1 > length cmds then Inl SliceBoundsOutOfRange
            else VersCtrl_inner vcnm cmd rest i (take i cmds @ drop (i + 1) cmds))
      else VersCtrl_inner vcnm cmd rest i cmds)"

text \<open>The outer loop \<^verbatim>\<open>for i := sz - 1; i >= 0; i--\<close>; the argument \<open>n\<close> is \<open>i + 1\<close>.\<close>

fun VersCtrl_outer :: "string list \<Rightarrow> string \<Rightarrow> nat \<Rightarrow> string list \<Rightarrow> panic + string list" where
  "VersCtrl_outer systems vcnm 0 cmds = Inr cmds"
| "VersCtrl_outer systems vcnm (Suc i) cmds =
     (if i \<ge> length cmds then Inl IndexOutOfRange
      else
        (let cmd = cmds ! i
         in if Contains cmd vcnm then VersCtrl_outer systems vcnm i cmds
            else (case VersCtrl_inner vcnm cmd systems i cmds of
                    Inl p \<Rightarrow> Inl p
                  | Inr cmds' \<Rightarrow> VersCtrl_outer systems vcnm i cmds')))"

definition VersCtrlCmdNames :: "string list \<Rightarrow> string \<Rightarrow> string list \<Rightarrow> panic + string list" where
  "VersCtrlCmdNames systems vcnm cmds =
     (if vcnm = [] then Inr cmds else VersCtrl_outer systems vcnm (length cmds) cmds)"

section \<open>Command definitions and their execution\<close>

record CmdAndArgs =
  Cmd :: string
  Args :: "string list"

text \<open>
  \<^verbatim>\<open>Buf\<close> points to a text buffer of the GUI library or is nil. The model keeps the lines
  that \<^verbatim>\<open>AppendTextLine\<close> was given, in order; \<open>None\<close> is the nil pointer.
\<close>

type_synonym TextBuf = "string list"

record Command =
  Name :: string
  Desc :: string
  Langs :: "string list"
  Cmds :: "CmdAndArgs list"
  Dir :: string
  Wait :: bool
  Buf :: "TextBuf option"

type_synonym Commands = "Command list"

text \<open>
  A byte slice handed back by \<^verbatim>\<open>CombinedOutput\<close>: the backing array from the slice's
  start up to its capacity, and the length. \<open>None\<close> is the nil slice. The error of a
  process is an \<^verbatim>\<open>*exec.ExitError\<close> or any other error, each with its message.
\<close>

record bslice =
  arr :: string
  blen :: nat

datatype exec_error = ExitError string | OtherError string

text \<open>
  What the package calls from outside: the placeholder binder and the prompt scanner
  (\<^verbatim>\<open>BindArgVars\<close>, \<^verbatim>\<open>ArgVarPrompts\<close>: another file of the package, not under src/), the
  operating system (\<^verbatim>\<open>CombinedOutput\<close> of the \<open>n\<close>-th process launched, \<^verbatim>\<open>os.Chdir\<close>, the
  formatted \<^verbatim>\<open>time.Now()\<close>), the user's answer to a prompt dialog (\<open>None\<close>: dismissed),
  and \<^verbatim>\<open>filepath.Join\<close>.
\<close>

record sys =
  BindArgVars :: "(string \<times> string) list \<Rightarrow> string \<Rightarrow> string"
  ArgVarPrompts :: "string \<Rightarrow> string list"
  CombinedOutput :: "nat \<Rightarrow> string \<Rightarrow> string list \<Rightarrow> bslice option \<times> exec_error option"
  Chdir :: "string \<Rightarrow> string option"
  Now :: string
  Dialog :: "string \<Rightarrow> string option"
  filepath_Join :: "string \<Rightarrow> string \<Rightarrow> string"

text \<open>
  The package-level variables \<^verbatim>\<open>CmdNoUserPrompt\<close> and \<^verbatim>\<open>ArgVarVals\<close> (a map, kept as an
  association list whose first entry for a key counts), and the trace of what the
  package did to the outside: directory changes, processes launched, goroutines
  started, prompt dialogs opened, status lines set, log lines.
\<close>

datatype event =
    EvChdir string
  | EvExec string "string list"
  | EvGo CmdAndArgs
  | EvPrompt string
  | EvStatus string
  | EvLog string

record world =
  CmdNoUserPrompt :: bool
  ArgVarVals :: "(string \<times> string) list"
  trace :: "event list"

definition emit :: "event \<Rightarrow> world \<Rightarrow> world" where
  "emit ev w = w\<lparr>trace := trace w @ [ev]\<rparr>"

text \<open>The processes launched so far, in order.\<close>

fun execs_of :: "event list \<Rightarrow> (string \<times> string list) list" where
  "execs_of [] = []"
| "execs_of (EvExec c a # evs) = (c, a) # execs_of evs"
| "execs_of (ev # evs) = execs_of evs"

definition execs :: "world \<Rightarrow> (string \<times> string list) list" where
  "execs w = execs_of (trace w)"

text \<open>A call either panics, leaving the world as it was at that point, or returns.\<close>

type_synonym 'a result = "(panic \<times> world) + 'a"

text \<open>Union of two prompt sets (lines 75-81, 154-160): a Go map used as a set.\<close>

definition add_keys :: "string list \<Rightarrow> string list \<Rightarrow> string list" where
  "add_keys ps aps = ps @ filter (\<lambda>k. k \<notin> set ps) (remdups aps)"

fun HasPrompts_args :: "sys \<Rightarrow> string list \<Rightarrow> string list \<Rightarrow> string list" where
  "HasPrompts_args e [] ps = ps"
| "HasPrompts_args e (av # avs) ps =
     (let aps = ArgVarPrompts e av
      in HasPrompts_args e avs (if aps \<noteq> [] then add_keys ps aps else ps))"

definition CmdAndArgs_HasPrompts :: "sys \<Rightarrow> CmdAndArgs \<Rightarrow> string list \<times> bool" where
  "CmdAndArgs_HasPrompts e cm =
     (let ps = HasPrompts_args e (Args cm) []
      in if length ps > 0 then (ps, True) else ([], False))"

fun HasPrompts_cmds :: "sys \<Rightarrow> CmdAndArgs list \<Rightarrow> string list \<Rightarrow> string list" where
  "HasPrompts_cmds e [] ps = ps"
| "HasPrompts_cmds e (cma # cmas) ps =
     (let (aps, has) = CmdAndArgs_HasPrompts e cma
      in HasPrompts_cmds e cmas (if has then add_keys ps aps else ps))"

definition HasPrompts :: "sys \<Rightarrow> Command \<Rightarrow> string list \<times> bool" where
  "HasPrompts e cm =
     (let ps = HasPrompts_cmds e (Cmds cm) []
      in if length ps > 0 then (ps, True) else ([], False))"

text \<open>
  \<^verbatim>\<open>BindArgs\<close> (lines 92-103) on values: \<open>None\<close> is the nil slice returned for a step
  without arguments. \<^verbatim>\<open>PrepCmd\<close> returns what \<^verbatim>\<open>exec.Command\<close> is given (program and
  arguments) and the command string.
\<close>

definition BindArgs :: "sys \<Rightarrow> (string \<times> string) list \<Rightarrow> CmdAndArgs \<Rightarrow> string list option" where
  "BindArgs e vals cm =
     (if length (Args cm) = 0 then None else Some (map (BindArgVars e vals) (Args cm)))"

definition PrepCmd :: "sys \<Rightarrow> (string \<times> string) list \<Rightarrow> CmdAndArgs \<Rightarrow>
                       (string \<times> string list) \<times> string" where
  "PrepCmd e vals cm =
     (let cstr = BindArgVars e vals (Cmd cm);
          args = BindArgs e vals cm
      in case args of
           None \<Rightarrow> ((cstr, []), cstr)
         | Some as \<Rightarrow> ((cstr, as), cstr @ '' '' @ Join as '' ''))"

definition bytes_of :: "bslice option \<Rightarrow> string" where
  "bytes_of out = (case out of None \<Rightarrow> [] | Some sl \<Rightarrow> take (blen sl) (arr sl))"

text \<open>\<^verbatim>\<open>AppendCmdOut\<close> (lines 294-303): nothing without a buffer.\<close>

definition AppendCmdOut :: "sys \<Rightarrow> world \<Rightarrow> Command \<Rightarrow> string \<Rightarrow> Command" where
  "AppendCmdOut e w cm out =
     (case Buf cm of
        None \<Rightarrow> cm
      | Some lines \<Rightarrow>
          cm\<lparr>Buf := Some (lines @
                 map (MarkupCmdOutput Fields (map_of (ArgVarVals w)) (filepath_Join e))
                     (Split out CHR 0x0A))\<rparr>)"

definition CmdOutStatusLen :: nat where
  "CmdOutStatusLen = 80"

text \<open>
  \<^verbatim>\<open>RunStatus\<close> (lines 311-334). \<^verbatim>\<open>out[:CmdOutStatusLen]\<close> is checked against the capacity
  of \<open>out\<close>; \<^verbatim>\<open>cm.Buf.AppendTextLine\<close> reads through the pointer \<^verbatim>\<open>cm.Buf\<close>.
\<close>

definition RunStatus :: "sys \<Rightarrow> Command \<Rightarrow> string \<Rightarrow> exec_error option \<Rightarrow> bslice option \<Rightarrow>
                         world \<Rightarrow> (bool \<times> Command \<times> world) result" where
  "RunStatus e cm cmdstr err out w =
     (case (case out of
              None \<Rightarrow> Some []
            | Some sl \<Rightarrow> if CmdOutStatusLen \<le> length (arr sl)
                         then Some (take CmdOutStatusLen (arr sl)) else None) of
        None \<Rightarrow> Inl (SliceBoundsOutOfRange, w)
      | Some outstr \<Rightarrow>
          (let tstr = Now e;
               (finstat, rval) =
                 (case err of
                    None \<Rightarrow> (cmdstr @ '' <b>successful</b> at: '' @ tstr, True)
                  | Some (ExitError msg) \<Rightarrow>
                      (cmdstr @ '' <b>failed</b> at: '' @ tstr @ '' with error: '' @ msg, False)
                  | Some (OtherError msg) \<Rightarrow>
                      (cmdstr @ '' <b>exec error</b> at: '' @ tstr @ '' error: '' @ msg, False))
           in case Buf cm of
                None \<Rightarrow> Inl (NilPointerDereference, w)
              | Some lines \<Rightarrow>
                  Inr (rval,
                       cm\<lparr>Buf := Some (lines @ [LF,
                              MarkupCmdOutput Fields (map_of (ArgVarVals w)) (filepath_Join e) finstat])\<rparr>,
                       emit (EvStatus (cmdstr @ '' '' @ outstr)) w)))"

text \<open>\<^verbatim>\<open>RunNoBuf\<close> (lines 287-291) and \<^verbatim>\<open>RunBufWait\<close> (lines 258-263).\<close>

definition RunNoBuf :: "sys \<Rightarrow> Command \<Rightarrow> CmdAndArgs \<Rightarrow> world \<Rightarrow> (bool \<times> Command \<times> world) result" where
  "RunNoBuf e cm cma w =
     (let ((cstr, args), cmdstr) = PrepCmd e (ArgVarVals w) cma;
          (out, err) = CombinedOutput e (length (execs w)) cstr args;
          w1 = emit (EvExec cstr args) w
      in RunStatus e cm cmdstr err out w1)"

definition RunBufWait :: "sys \<Rightarrow> Command \<Rightarrow> CmdAndArgs \<Rightarrow> world \<Rightarrow> (bool \<times> Command \<times> world) result" where
  "RunBufWait e cm cma w =
     (let ((cstr, args), cmdstr) = PrepCmd e (ArgVarVals w) cma;
          (out, err) = CombinedOutput e (length (execs w)) cstr args;
          w1 = emit (EvExec cstr args) w;
          cm1 = AppendCmdOut e w1 cm (bytes_of out)
      in RunStatus e cm1 cmdstr err out w1)"

text \<open>The loop of lines 227-238 over the steps, left by \<^verbatim>\<open>break\<close> when a step returns false.\<close>

fun RunSeq :: "sys \<Rightarrow> CmdAndArgs list \<Rightarrow> Command \<Rightarrow> world \<Rightarrow> (Command \<times> world) result" where
  "RunSeq e [] cm w = Inr (cm, w)"
| "RunSeq e (cma # rest) cm w =
     (case (if Buf cm = None then RunNoBuf e cm cma w else RunBufWait e cm cma w) of
        Inl p \<Rightarrow> Inl p
      | Inr (ok, cm1, w1) \<Rightarrow> if \<not> ok then Inr (cm1, w1) else RunSeq e rest cm1 w1)"

text \<open>
  \<^verbatim>\<open>RunAfterPrompts\<close> (lines 215-253). In the branch for a single step without \<^verbatim>\<open>Wait\<close> the
  step is handed to a goroutine, which the model records and does not run.
\<close>

definition RunAfterPrompts :: "sys \<Rightarrow> Command \<Rightarrow> world \<Rightarrow> (Command \<times> world) result" where
  "RunAfterPrompts e cm w =
     (let w0 = w\<lparr>CmdNoUserPrompt := False\<rparr>;
          (cm1, w1) =
            (if Dir cm \<noteq> [] then
               (let cds = BindArgVars e (ArgVarVals w0) (Dir cm);
                    err = Chdir e cds;
                    w1 = emit (EvChdir cds) w0;
                    cm1 = AppendCmdOut e w1 cm (''cd '' @ cds @ '' (from: '' @ Dir cm @ '')'')
                in case err of
                     None \<Rightarrow> (cm1, w1)
                   | Some msg \<Rightarrow>
                       (AppendCmdOut e w1 cm1
                          (''Could not change to directory '' @ cds @ '' -- error: '' @ msg), w1))
             else (cm, w0));
          r = (if Wait cm1 \<or> length (Cmds cm1) > 1 then RunSeq e (Cmds cm1) cm1 w1
               else (case Cmds cm1 of
                       [] \<Rightarrow> Inl (IndexOutOfRange, w1)
                     | cma # _ \<Rightarrow> Inr (cm1, emit (EvGo cma) w1)))
      in case r of
           Inl p \<Rightarrow> Inl p
         | Inr (cm2, w2) \<Rightarrow>
             (let cds = BindArgVars e (ArgVarVals w2) ''{ProjPath}'';
                  w3 = emit (EvChdir cds) w2
              in case Chdir e cds of
                   None \<Rightarrow> Inr (cm2, w3)
                 | Some msg \<Rightarrow>
                     Inr (cm2, emit (EvLog (''Could not change to proj directory '' @ cds @
                            '' (spec: {ProjPath}): error: '' @ msg)) w3)))"

text \<open>
  \<^verbatim>\<open>PromptUser\<close> (lines 177-200): one dialog per reserved token of \<open>pvals\<close>. The callback
  of a dialog runs when the user answers it; the model takes the answers in the order
  in which the dialogs were opened. \<open>cnt\<close> is the counter the callbacks share.
\<close>

fun PromptUser_loop :: "sys \<Rightarrow> nat \<Rightarrow> string list \<Rightarrow> nat \<Rightarrow> Command \<Rightarrow> world \<Rightarrow>
                        (Command \<times> world) result" where
  "PromptUser_loop e sz [] cnt cm w = Inr (cm, w)"
| "PromptUser_loop e sz (pv # pvs) cnt cm w =
     (if pv = ''{PromptString1}'' \<or> pv = ''{PromptString2}'' then
        (let w1 = emit (EvPrompt pv) w
         in case Dialog e pv of
              None \<Rightarrow> PromptUser_loop e sz pvs cnt cm w1
            | Some val \<Rightarrow>
                (let w2 = w1\<lparr>ArgVarVals := (pv, val) # ArgVarVals w1\<rparr>;
                     cnt1 = cnt + 1
                 in if cnt1 = sz then
                      (case RunAfterPrompts e cm w2 of
                         Inl p \<Rightarrow> Inl p
                       | Inr (cm3, w3) \<Rightarrow> PromptUser_loop e sz pvs cnt1 cm3 w3)
                    else PromptUser_loop e sz pvs cnt1 cm w2))
      else PromptUser_loop e sz pvs cnt cm w)"

definition PromptUser :: "sys \<Rightarrow> Command \<Rightarrow> string list \<Rightarrow> world \<Rightarrow> (Command \<times> world) result" where
  "PromptUser e cm pvals w = PromptUser_loop e (length pvals) pvals 0 cm w"

text \<open>\<^verbatim>\<open>Run\<close> (lines 206-212).\<close>

definition Run :: "sys \<Rightarrow> Command \<Rightarrow> world \<Rightarrow> (Command \<times> world) result" where
  "Run e cm w =
     (let (pvals, hasp) = HasPrompts e cm
      in case (if \<not> hasp \<or> CmdNoUserPrompt w then RunAfterPrompts e cm w else Inr (cm, w)) of
           Inl p \<Rightarrow> Inl p
         | Inr (cm1, w1) \<Rightarrow> PromptUser e cm1 pvals w1)"

definition world_of :: "(Command \<times> world) result \<Rightarrow> world" where
  "world_of r = (case r of Inl (p, w) \<Rightarrow> w | Inr (cm, w) \<Rightarrow> w)"

text \<open>
  For the statements about the sequence of steps: what \<^verbatim>\<open>PrepCmd\<close> hands to
  \<^verbatim>\<open>exec.Command\<close> for a step, and whether the process of the step launched \<open>j\<close> launches
  after the world \<open>w\<close> reports an error (an exit error or any other).
\<close>

definition prepared :: "sys \<Rightarrow> world \<Rightarrow> CmdAndArgs \<Rightarrow> string \<times> string list" where
  "prepared e w cma = fst (PrepCmd e (ArgVarVals w) cma)"



section \<open>Sample collaborators and commands\<close>

text \<open>
  Modelled from the spec: \<^verbatim>\<open>ArgVarPrompts\<close> is declared in a file of the package that is
  not under src/. The spec (4.2) has it scan an argument string for the reserved prompt
  tokens and return the distinct ones found.
\<close>

definition ArgVarPrompts_spec :: "string \<Rightarrow> string list" where
  "ArgVarPrompts_spec arg = filter (Contains arg) [''{PromptString1}'', ''{PromptString2}'']"

text \<open>
  Modelled from the spec: \<^verbatim>\<open>BindArgVars\<close> is declared in the same missing file. The spec
  (4.1) has it replace every occurrence of a token that the context maps to a value and
  leave every other text verbatim. (Escaped braces and the path-separator rule are not
  part of this sample binder.)
\<close>

fun bind_first :: "(string \<times> string) list \<Rightarrow> string \<Rightarrow> (string \<times> string) option" where
  "bind_first [] s = None"
| "bind_first ((k, v) # kvs) s =
     (if k \<noteq> [] \<and> prefix k s then Some (v, drop (length k) s) else bind_first kvs s)"

lemma bind_first_shorter: "bind_first vals s = Some (v, rest) \<Longrightarrow> length rest < length s"
  by (induction vals) (auto split: if_splits simp: prefix_def)

function BindArgVars_spec :: "(string \<times> string) list \<Rightarrow> string \<Rightarrow> string" where
  "BindArgVars_spec vals [] = []"
| "BindArgVars_spec vals (c # cs) =
     (case bind_first vals (c # cs) of
        Some (v, rest) \<Rightarrow> v @ BindArgVars_spec vals rest
      | None \<Rightarrow> c # BindArgVars_spec vals cs)"
  by pat_completeness auto
termination
  by (relation "measure (\<lambda>(vals, s). length s)") (auto dest: bind_first_shorter)

text \<open>
  A system in which every process succeeds with no output (a nil slice), every
  directory change succeeds and the user types \<^verbatim>\<open>typed\<close> into every prompt; and the same
  system with a process that fails at its first launch and prints two bytes.
\<close>

definition sys_ok :: sys where
  "sys_ok = \<lparr>BindArgVars = BindArgVars_spec, ArgVarPrompts = ArgVarPrompts_spec,
             CombinedOutput = (\<lambda>n c a. (None, None)), Chdir = (\<lambda>d. None),
             Now = ''Mon Jan  2 15:04:05 MST 2006'', Dialog = (\<lambda>pv. Some ''typed''),
             filepath_Join = join2\<rparr>"


text \<open>Two entries of \<^verbatim>\<open>StdCmds\<close> (lines 678-681), the first with a buffer made for it.\<close>

definition sys_dismiss :: sys where
  "sys_dismiss = sys_ok\<lparr>Dialog := (\<lambda>pv. None)\<rparr>"

definition Commit_Git :: Command where
  "Commit_Git = \<lparr>Name = ''Commit Git'', Desc = ''git commit'', Langs = [],
       Cmds = [\<lparr>Cmd = ''git'', Args = [''commit'', ''-am'', ''{PromptString1}'']\<rparr>],
       Dir = ''{FileDirPath}'', Wait = True, Buf = Some []\<rparr>"

definition Pull_Git :: Command where
  "Pull_Git = \<lparr>Name = ''Pull Git '', Desc = ''git pull'', Langs = [],
       Cmds = [\<lparr>Cmd = ''git'', Args = [''pull'']\<rparr>], Dir = [], Wait = True, Buf = None\<rparr>"


definition world0 :: world where
  "world0 = \<lparr>CmdNoUserPrompt = True,
       ArgVarVals = [(''{PromptString1}'', ''msg''), (''{FileDirPath}'', ''/proj/src''),
                     (''{ProjPath}'', ''/proj'')],
       trace = []\<rparr>"

section \<open>Persistence of the command list\<close>

text \<open>
  \<^verbatim>\<open>OpenJSON\<close> (lines 502-511) on the receiver's value \<open>cm\<close>: the result is the error, if
  any, and the receiver's value after the call. \<^verbatim>\<open>ioutil.ReadFile\<close> and
  \<^verbatim>\<open>json.Unmarshal\<close> are parameters; the decoder is given the bytes and the value it
  decodes into, and returns its error and what it left there.
\<close>

definition OpenJSON :: "(string \<Rightarrow> string + string) \<Rightarrow>
                        (string \<Rightarrow> Commands \<Rightarrow> string option \<times> Commands) \<Rightarrow>
                        string \<Rightarrow> Commands \<Rightarrow> string option \<times> Commands" where
  "OpenJSON ReadFile Unmarshal filename cm =
     (let cm0 = []
      in case ReadFile filename of
           Inl err \<Rightarrow> (Some err, cm0)
         | Inr b \<Rightarrow> Unmarshal b cm0)"

definition no_file :: "string \<Rightarrow> string + string" where
  "no_file filename = Inl (''open '' @ filename @ '': no such file or directory'')"

definition truncated_file :: "string \<Rightarrow> string + string" where
  "truncated_file filename = Inr ''[{''"

definition bad_json :: "string \<Rightarrow> Commands \<Rightarrow> string option \<times> Commands" where
  "bad_json b cm = (Some ''unexpected end of JSON input'', cm)"

section \<open>Binding a step, with the argument slices in a store\<close>

text \<open>
  For the question of what binding writes to, the slices of strings live in a store:
  an address is an index into the list of backing arrays, and a slice is nil or an
  address with a length. \<^verbatim>\<open>make([]string, sz)\<close> appends a new array of \<open>sz\<close> empty
  strings. Go strings are immutable values, so \<^verbatim>\<open>Cmd\<close> stays a value.
\<close>

type_synonym store = "string list list"

datatype strslice = NilSlice | Slice nat nat

record CmdAndArgs_ref =
  Cmd_r :: string
  Args_r :: strslice

fun slice_len :: "strslice \<Rightarrow> nat" where
  "slice_len NilSlice = 0"
| "slice_len (Slice a n) = n"

fun slice_elems :: "store \<Rightarrow> strslice \<Rightarrow> string list" where
  "slice_elems h NilSlice = []"
| "slice_elems h (Slice a n) = take n (h ! a)"

fun wf_slice :: "store \<Rightarrow> strslice \<Rightarrow> bool" where
  "wf_slice h NilSlice = True"
| "wf_slice h (Slice a n) = (a < length h \<and> n \<le> length (h ! a))"

text \<open>The loop of lines 98-101: \<^verbatim>\<open>args[i] = BindArgVars(cm.Args[i])\<close> for \<open>i\<close>, \<open>i+1\<close>, ...\<close>

fun BindArgs_fill :: "(string \<Rightarrow> string) \<Rightarrow> strslice \<Rightarrow> nat \<Rightarrow> nat \<Rightarrow> nat \<Rightarrow> store \<Rightarrow> store" where
  "BindArgs_fill bind src dst i 0 h = h"
| "BindArgs_fill bind src dst i (Suc n) h =
     (let av = bind (slice_elems h src ! i)
      in BindArgs_fill bind src dst (i + 1) n (h[dst := (h ! dst)[i := av]]))"

definition BindArgs_store :: "(string \<Rightarrow> string) \<Rightarrow> store \<Rightarrow> CmdAndArgs_ref \<Rightarrow> strslice \<times> store" where
  "BindArgs_store bind h cm =
     (let sz = slice_len (Args_r cm)
      in if sz = 0 then (NilSlice, h)
         else (let a = length h;
                   h1 = h @ [replicate sz []]
               in (Slice a sz, BindArgs_fill bind (Args_r cm) a 0 sz h1)))"

definition PrepCmd_store :: "(string \<Rightarrow> string) \<Rightarrow> store \<Rightarrow> CmdAndArgs_ref \<Rightarrow>
                             (string \<times> strslice) \<times> string \<times> store" where
  "PrepCmd_store bind h cm =
     (let cstr = bind (Cmd_r cm);
          (args, h1) = BindArgs_store bind h cm;
          cmdstr = (if args \<noteq> NilSlice then cstr @ '' '' @ Join (slice_elems h1 args) '' ''
                    else cstr)
      in ((cstr, args), cmdstr, h1))"

text \<open>
  A store with two arrays, a step whose arguments are the first two strings of the
  second array, and the step of the \<^verbatim>\<open>Run Proj\<close> entry of \<^verbatim>\<open>StdCmds\<close> (line 655), which has
  no arguments.
\<close>

definition store0 :: store where
  "store0 = [[''x''], [''-w'', ''{FileDirPath}/a.go'', ''junk'']]"

definition Fmt_step :: CmdAndArgs_ref where
  "Fmt_step = \<lparr>Cmd_r = ''gofmt'', Args_r = Slice 1 2\<rparr>"

definition Run_step :: CmdAndArgs_ref where
  "Run_step = \<lparr>Cmd_r = ''{RunExec}'', Args_r = NilSlice\<rparr>"

definition bind0 :: "string \<Rightarrow> string" where
  "bind0 = BindArgVars_spec (ArgVarVals world0)"

section \<open>Status: string round trip\<close>

lemmas Status_consts =
  NotInit_def Error_def Building_def Ready_def Running_def Stopped_def Finished_def StatusN_def

lemma Status_String_members: "map Status_String Status_members = Status_names"
  by (simp add: Status_members_def Status_names_def Status_String_def Status_index_def
      Status_name_def substr_def Status_consts)

lemma FromString_loop_unfold:
  "FromString_loop s 0 =
     (if s = ''NotInit'' then Some 0 else if s = ''Error'' then Some 1
      else if s = ''Building'' then Some 2 else if s = ''Ready'' then Some 3
      else if s = ''Running'' then Some 4 else if s = ''Stopped'' then Some 5
      else if s = ''Finished'' then Some 6 else if s = ''StatusN'' then Some 7 else None)"
  by (simp add: FromString_loop.simps Status_index_def Status_name_def substr_def)

lemma FromString_other: "s \<notin> set Status_names \<Longrightarrow> FromString_loop s 0 = None"
  unfolding FromString_loop_unfold by (simp add: Status_names_def)

text \<open>
  Claim C6. For every member \<open>v\<close> of the enumeration (the eight constants of the generated
  table, the sentinel \<^verbatim>\<open>StatusN\<close> included), \<^verbatim>\<open>FromString(String(v))\<close> returns no error
  and sets the receiver to \<open>v\<close>; for every string that is not the name of a member,
  \<^verbatim>\<open>FromString\<close> returns the error and the receiver keeps the value \<open>r\<close> it had.
\<close>

theorem Status_roundtrip:
  "(\<forall>v \<in> set Status_members. Status_FromString r (Status_String v) = (None, v)) \<and>
   (\<forall>s. s \<notin> Status_String ` set Status_members \<longrightarrow>
      Status_FromString r s =
        (Some (''String: '' @ s @ '' is not a valid option for type: Status''), r))"
proof (intro conjI allI impI)
  show "\<forall>v \<in> set Status_members. Status_FromString r (Status_String v) = (None, v)"
    by (simp add: Status_members_def Status_consts Status_FromString_def Status_String_def
        Status_index_def Status_name_def substr_def FromString_loop_unfold)
next
  fix s assume "s \<notin> Status_String ` set Status_members"
  then have "s \<notin> set Status_names"
    using Status_String_members by (metis set_map)
  then show "Status_FromString r s =
      (Some (''String: '' @ s @ '' is not a valid option for type: Status''), r)"
    using FromString_other[of s] by (simp add: Status_FromString_def)
qed

theorem Status_roundtrip_witness:
  "Ready \<in> set Status_members \<and>
   Status_FromString NotInit (Status_String Ready) = (None, Ready) \<and>
   ''Bogus'' \<notin> Status_String ` set Status_members \<and>
   ''ready'' \<notin> Status_String ` set Status_members \<and>
   Status_FromString Running ''Bogus'' =
     (Some ''String: Bogus is not a valid option for type: Status'', Running) \<and>
   Status_FromString Running ''ready'' =
     (Some ''String: ready is not a valid option for type: Status'', Running)"
proof -
  have m: "Ready \<in> set Status_members"
    by (simp add: Status_members_def)
  have n: "''Bogus'' \<notin> Status_String ` set Status_members"
          "''ready'' \<notin> Status_String ` set Status_members"
    by (simp_all add: Status_String_members Status_names_def flip: set_map)
  show ?thesis
    using m n Status_roundtrip [of NotInit] Status_roundtrip [of Running]
    by simp
qed

section \<open>Variable rendering: the depth bound\<close>

text \<open>
  Claim C7, as stated, fails: a node with a pre-set value or element value renders as
  that value whatever the depth, a pointer-kind node with one child renders that child,
  and an aggregate beyond the depth bound renders with a leading space (and its type
  name when asked for), not as the bare \<^verbatim>\<open>{...}\<close>.
\<close>

theorem ValueString_depth_counterexample:
  "(1::int) < 5 \<and>
   ValueString noPtr indent_String (Variable ''x'' ''42'' ''int'' 0 [] [] [] [] [])
     False 5 1 100 False = ''42'' \<and>
   ValueString noPtr indent_String (Variable ''x'' [] ''int'' 0 ''7'' [] [] [] [])
     False 5 1 100 False = ''7'' \<and>
   ValueString ptrKind indent_String (Variable ''p'' [] ''*int'' 1 [] [] [] [] [leaf ''k'' ''1''])
     False 5 1 100 False = ''*1'' \<and>
   ValueString noPtr indent_String (Variable ''x'' [] ''T'' 0 [] [''a''] [] [] [leaf ''k'' ''1''])
     False 5 1 100 False = '' {...}'' \<and>
   ValueString noPtr indent_String (Variable ''x'' [] ''T'' 0 [] [''a''] [] [] [leaf ''k'' ''1''])
     False 5 1 100 True \<noteq> ''{...}''"
  by (simp add: noPtr_def ptrKind_def leaf_def)

text \<open>
  Claim C7, amended. At any depth, a node with a pre-set \<^verbatim>\<open>Value\<close> renders as that value;
  otherwise a node with a pre-set \<^verbatim>\<open>ElValue\<close> renders as that; otherwise a pointer-kind
  node with exactly one child renders as \<^verbatim>\<open>*\<close> followed by that child, rendered at the
  same \<open>ident\<close> with its type name. Every other node renders, when \<open>ident > maxdepth\<close>,
  as its type name (if \<open>outType\<close>), then \<^verbatim>\<open> {...\<close>, then in multi-line mode a newline and
  the indent, then \<^verbatim>\<open>}\<close>: the result does not depend on \<^verbatim>\<open>List\<close>, \<^verbatim>\<open>Map\<close>, \<^verbatim>\<open>MapVar\<close> or
  \<^verbatim>\<open>Kids\<close>, and no sub-variable is rendered.
\<close>

theorem ValueString_beyond_maxdepth:
  "(Value vr \<noteq> [] \<longrightarrow>
      ValueString isPtr ind vr newlines ident maxdepth maxlen outType = Value vr) \<and>
   (Value vr = [] \<and> ElValue vr \<noteq> [] \<longrightarrow>
      ValueString isPtr ind vr newlines ident maxdepth maxlen outType = ElValue vr) \<and>
   (Value vr = [] \<and> ElValue vr = [] \<and> isPtr (Kind vr) \<and> length (Kids vr) = 1 \<longrightarrow>
      ValueString isPtr ind vr newlines ident maxdepth maxlen outType =
        ''*'' @ ValueString isPtr ind (Kids vr ! 0) newlines ident maxdepth maxlen True) \<and>
   (Value vr = [] \<and> ElValue vr = [] \<and> \<not> (isPtr (Kind vr) \<and> length (Kids vr) = 1) \<and>
    ident > maxdepth \<longrightarrow>
      ValueString isPtr ind vr newlines ident maxdepth maxlen outType =
        (if outType then TypeStr vr else []) @ '' {...'' @
        (if newlines then LF @ ind ident else []) @ ''}'')"
proof (cases vr)
  case (Variable nm val ts kd elv lst mp mv kids)
  have "length kids = 1 \<Longrightarrow> hd kids = kids ! 0"
    by (cases kids) auto
  with Variable show ?thesis by auto
qed

theorem ValueString_beyond_maxdepth_witness:
  "Value (Variable ''x'' ''42'' ''int'' 0 [] [] [] [] []) = ''42'' \<and>
   ValueString noPtr indent_String (Variable ''x'' ''42'' ''int'' 0 [] [] [] [] [])
     False 5 1 100 False = ''42'' \<and>
   ElValue (Variable ''x'' [] ''int'' 0 ''7'' [] [] [] []) = ''7'' \<and>
   ValueString noPtr indent_String (Variable ''x'' [] ''int'' 0 ''7'' [] [] [] [])
     False 5 1 100 False = ''7'' \<and>
   ptrKind (Kind (Variable ''p'' [] ''*T'' 1 [] [] [] []
       [Variable ''q'' [] ''T'' 0 [] [''a''] [] [] []])) \<and>
   length (Kids (Variable ''p'' [] ''*T'' 1 [] [] [] []
       [Variable ''q'' [] ''T'' 0 [] [''a''] [] [] []])) = 1 \<and>
   ValueString ptrKind indent_String
     (Variable ''p'' [] ''*T'' 1 [] [] [] [] [Variable ''q'' [] ''T'' 0 [] [''a''] [] [] []])
     False 5 1 100 False = ''*T {...}'' \<and>
   (1::int) < 2 \<and>
   ValueString noPtr indent_String (Variable ''x'' [] ''T'' 0 [] [''a''] [] [] [leaf ''k'' ''1''])
     True 2 1 100 True = ''T {...'' @ LF @ ''    }''"
proof -
  let ?v = "Variable ''x'' ''42'' ''int'' 0 [] [] [] [] []"
  let ?e = "Variable ''x'' [] ''int'' 0 ''7'' [] [] [] []"
  let ?q = "Variable ''q'' [] ''T'' 0 [] [''a''] [] [] []"
  let ?p = "Variable ''p'' [] ''*T'' 1 [] [] [] [] [?q]"
  let ?a = "Variable ''x'' [] ''T'' 0 [] [''a''] [] [] [leaf ''k'' ''1'']"
  have i: "indent_String 2 = ''    ''"
    by (simp add: indent_String_def numeral_eq_Suc)
  have k: "ptrKind 1" "\<not> ptrKind 0" "\<not> noPtr 0"
    by (simp_all add: ptrKind_def noPtr_def)
  have v: "ValueString noPtr indent_String ?v False 5 1 100 False = ''42''"
    using ValueString_beyond_maxdepth [where isPtr = noPtr and vr = ?v and ident = 5
        and maxdepth = 1 and ind = indent_String and newlines = False and maxlen = 100
        and outType = False]
    by (simp del: ValueString.simps)
  have e: "ValueString noPtr indent_String ?e False 5 1 100 False = ''7''"
    using ValueString_beyond_maxdepth [where isPtr = noPtr and vr = ?e and ident = 5
        and maxdepth = 1 and ind = indent_String and newlines = False and maxlen = 100
        and outType = False]
    by (simp del: ValueString.simps)
  have q: "ValueString ptrKind indent_String ?q False 5 1 100 True = ''T {...}''"
    using k ValueString_beyond_maxdepth [where isPtr = ptrKind and vr = ?q and ident = 5
        and maxdepth = 1 and ind = indent_String and newlines = False and maxlen = 100
        and outType = True]
    by (simp del: ValueString.simps)
  have p: "ValueString ptrKind indent_String ?p False 5 1 100 False = ''*T {...}''"
    using k q ValueString_beyond_maxdepth [where isPtr = ptrKind and vr = ?p and ident = 5
        and maxdepth = 1 and ind = indent_String and newlines = False and maxlen = 100
        and outType = False]
    by (simp del: ValueString.simps)
  have a: "ValueString noPtr indent_String ?a True 2 1 100 True = ''T {...'' @ LF @ ''    }''"
    using k i ValueString_beyond_maxdepth [where isPtr = noPtr and vr = ?a and ident = 2
        and maxdepth = 1 and ind = indent_String and newlines = True and maxlen = 100
        and outType = True]
    by (simp del: ValueString.simps)
  show ?thesis
    using v e p a k by (simp del: ValueString.simps)
qed

section \<open>Variable rendering: the length bound\<close>

lemma List_loop_render:
  "List_loop i (i + length els) els b =
     b @ concat (map (\<lambda>(j, el). digits10 j @ '': '' @ el @ (if j + 1 < i + length els then '', '' else []))
                     (enumerate i els))"
proof (induction els arbitrary: i b)
  case Nil
  then show ?case by simp
next
  case (Cons el els)
  have "List_loop (i + 1) ((i + 1) + length els) els b' =
     b' @ concat (map (\<lambda>(j, el). digits10 j @ '': '' @ el @ (if j + 1 < (i + 1) + length els then '', '' else []))
                     (enumerate (i + 1) els))" for b'
    by (rule Cons.IH)
  then show ?case
    by (cases "els = []") (simp_all add: Let_def)
qed

lemma Map_loop_render: "Map_loop mp b = b @ map_render mp"
  by (induction mp b rule: Map_loop.induct) (simp_all add: map_render_def)

lemma flat_part_render: "flat_part outType ts lst mp = flat_render outType ts lst mp"
  using List_loop_render [of 0 lst]
  by (simp add: flat_part_def flat_render_def list_render_def Map_loop_render)

lemma MapVar_loop_Cons:
  "MapVar_loop isPtr ind (kv # rest) nl ident md ml b =
     (if int (length (MapVar_entry isPtr ind kv nl ident md ml b)) > ml
      then (MapVar_entry isPtr ind kv nl ident md ml b @ ''...'', True)
      else MapVar_loop isPtr ind rest nl ident md ml
             (MapVar_entry isPtr ind kv nl ident md ml b @ entry_sep nl))"
  by (cases kv) (simp add: MapVar_entry_def entry_sep_def Let_def)

lemma Kids_loop_Cons:
  "Kids_loop isPtr ind (ve # rest) nl ident md ml b =
     (if int (length (Kids_entry isPtr ind ve nl ident md ml b)) > ml
      then (Kids_entry isPtr ind ve nl ident md ml b @ ''...'', True)
      else Kids_loop isPtr ind rest nl ident md ml
             (Kids_entry isPtr ind ve nl ident md ml b @ entry_sep nl))"
  by (simp add: Kids_entry_def entry_sep_def Let_def)

lemma MapVar_upto_0: "MapVar_upto isPtr ind (kv # rest) nl ident md ml b 0 =
    MapVar_entry isPtr ind kv nl ident md ml b"
  by (simp add: MapVar_upto_def)

lemma MapVar_upto_Suc: "MapVar_upto isPtr ind (kv # rest) nl ident md ml b (Suc j) =
    MapVar_upto isPtr ind rest nl ident md ml (MapVar_entry isPtr ind kv nl ident md ml b @ entry_sep nl) j"
  by (simp add: MapVar_upto_def)

lemma Kids_upto_0: "Kids_upto isPtr ind (ve # rest) nl ident md ml b 0 =
    Kids_entry isPtr ind ve nl ident md ml b"
  by (simp add: Kids_upto_def)

lemma Kids_upto_Suc: "Kids_upto isPtr ind (ve # rest) nl ident md ml b (Suc j) =
    Kids_upto isPtr ind rest nl ident md ml (Kids_entry isPtr ind ve nl ident md ml b @ entry_sep nl) j"
  by (simp add: Kids_upto_def)

lemma MapVar_loop_all_within:
  "(\<forall>j<length mv. int (length (MapVar_upto isPtr ind mv nl ident md ml b j)) \<le> ml) \<Longrightarrow>
   MapVar_loop isPtr ind mv nl ident md ml b = (MapVar_plain isPtr ind mv nl ident md ml b, False)"
proof (induction mv arbitrary: b)
  case Nil
  then show ?case by simp
next
  case (Cons kv rest)
  from Cons.prems have 0: "int (length (MapVar_entry isPtr ind kv nl ident md ml b)) \<le> ml"
    by (auto simp: MapVar_upto_0 dest: spec [of _ 0])
  have "\<forall>j<length rest. int (length (MapVar_upto isPtr ind rest nl ident md ml
          (MapVar_entry isPtr ind kv nl ident md ml b @ entry_sep nl) j)) \<le> ml"
    using Cons.prems by (auto simp: MapVar_upto_Suc dest: spec [of _ "Suc j" for j])
  then show ?case
    using 0 Cons.IH by (simp add: MapVar_loop_Cons del: MapVar_loop.simps)
qed

lemma MapVar_loop_first_over:
  "n < length mv \<Longrightarrow>
   (\<forall>j<n. int (length (MapVar_upto isPtr ind mv nl ident md ml b j)) \<le> ml) \<Longrightarrow>
   int (length (MapVar_upto isPtr ind mv nl ident md ml b n)) > ml \<Longrightarrow>
   MapVar_loop isPtr ind mv nl ident md ml b =
     (MapVar_upto isPtr ind mv nl ident md ml b n @ ''...'', True)"
proof (induction mv arbitrary: b n)
  case Nil
  then show ?case by simp
next
  case (Cons kv rest)
  show ?case
  proof (cases n)
    case 0
    with Cons.prems show ?thesis
      by (simp add: MapVar_loop_Cons MapVar_upto_0 del: MapVar_loop.simps)
  next
    case (Suc m)
    from Cons.prems Suc have 0: "int (length (MapVar_entry isPtr ind kv nl ident md ml b)) \<le> ml"
      by (auto simp: MapVar_upto_0 dest: spec [of _ 0])
    have "\<forall>j<m. int (length (MapVar_upto isPtr ind rest nl ident md ml
            (MapVar_entry isPtr ind kv nl ident md ml b @ entry_sep nl) j)) \<le> ml"
      using Cons.prems Suc by (auto simp: MapVar_upto_Suc dest: spec [of _ "Suc j" for j])
    then show ?thesis
      using 0 Cons.prems Suc Cons.IH [of m "MapVar_entry isPtr ind kv nl ident md ml b @ entry_sep nl"]
      by (simp add: MapVar_loop_Cons MapVar_upto_Suc del: MapVar_loop.simps)
  qed
qed

lemma Kids_loop_all_within:
  "(\<forall>j<length ks. int (length (Kids_upto isPtr ind ks nl ident md ml b j)) \<le> ml) \<Longrightarrow>
   Kids_loop isPtr ind ks nl ident md ml b = (Kids_plain isPtr ind ks nl ident md ml b, False)"
proof (induction ks arbitrary: b)
  case Nil
  then show ?case by simp
next
  case (Cons ve rest)
  from Cons.prems have 0: "int (length (Kids_entry isPtr ind ve nl ident md ml b)) \<le> ml"
    by (auto simp: Kids_upto_0 dest: spec [of _ 0])
  have "\<forall>j<length rest. int (length (Kids_upto isPtr ind rest nl ident md ml
          (Kids_entry isPtr ind ve nl ident md ml b @ entry_sep nl) j)) \<le> ml"
    using Cons.prems by (auto simp: Kids_upto_Suc dest: spec [of _ "Suc j" for j])
  then show ?case
    using 0 Cons.IH by (simp add: Kids_loop_Cons del: Kids_loop.simps)
qed

lemma Kids_loop_first_over:
  "n < length ks \<Longrightarrow>
   (\<forall>j<n. int (length (Kids_upto isPtr ind ks nl ident md ml b j)) \<le> ml) \<Longrightarrow>
   int (length (Kids_upto isPtr ind ks nl ident md ml b n)) > ml \<Longrightarrow>
   Kids_loop isPtr ind ks nl ident md ml b =
     (Kids_upto isPtr ind ks nl ident md ml b n @ ''...'', True)"
proof (induction ks arbitrary: b n)
  case Nil
  then show ?case by simp
next
  case (Cons ve rest)
  show ?case
  proof (cases n)
    case 0
    with Cons.prems show ?thesis
      by (simp add: Kids_loop_Cons Kids_upto_0 del: Kids_loop.simps)
  next
    case (Suc m)
    from Cons.prems Suc have 0: "int (length (Kids_entry isPtr ind ve nl ident md ml b)) \<le> ml"
      by (auto simp: Kids_upto_0 dest: spec [of _ 0])
    have "\<forall>j<m. int (length (Kids_upto isPtr ind rest nl ident md ml
            (Kids_entry isPtr ind ve nl ident md ml b @ entry_sep nl) j)) \<le> ml"
      using Cons.prems Suc by (auto simp: Kids_upto_Suc dest: spec [of _ "Suc j" for j])
    then show ?thesis
      using 0 Cons.prems Suc Cons.IH [of m "Kids_entry isPtr ind ve nl ident md ml b @ entry_sep nl"]
      by (simp add: Kids_loop_Cons Kids_upto_Suc del: Kids_loop.simps)
  qed
qed

lemma prefix_MapVar_entry: "prefix b (MapVar_entry isPtr ind kv nl ident md ml b)"
  by (simp add: MapVar_entry_def)

lemma prefix_Kids_entry: "prefix b (Kids_entry isPtr ind ve nl ident md ml b)"
  by (simp add: Kids_entry_def)

lemma prefix_MapVar_loop: "prefix b (fst (MapVar_loop isPtr ind mv nl ident md ml b))"
proof (induction mv arbitrary: b)
  case Nil
  then show ?case by simp
next
  case (Cons kv rest)
  have e: "prefix b (MapVar_entry isPtr ind kv nl ident md ml b @ x)" for x
    using prefix_MapVar_entry by (rule prefix_prefix)
  show ?case
    using e Cons.IH [of "MapVar_entry isPtr ind kv nl ident md ml b @ entry_sep nl"]
    by (auto simp add: MapVar_loop_Cons simp del: MapVar_loop.simps intro: prefix_order.trans)
qed

lemma prefix_Kids_loop: "prefix b (fst (Kids_loop isPtr ind ks nl ident md ml b))"
proof (induction ks arbitrary: b)
  case Nil
  then show ?case by simp
next
  case (Cons ve rest)
  have e: "prefix b (Kids_entry isPtr ind ve nl ident md ml b @ x)" for x
    using prefix_Kids_entry by (rule prefix_prefix)
  show ?case
    using e Cons.IH [of "Kids_entry isPtr ind ve nl ident md ml b @ entry_sep nl"]
    by (auto simp add: Kids_loop_Cons simp del: Kids_loop.simps intro: prefix_order.trans)
qed

lemma ValueString_composite:
  "\<not> (isPtr kd \<and> length kids = 1) \<Longrightarrow> \<not> ident > md \<Longrightarrow>
   ValueString isPtr ind (Variable nm [] ts kd [] lst mp mv kids) nl ident md ml outType =
     fst (Kids_loop isPtr ind kids nl ident md ml
           (fst (MapVar_loop isPtr ind mv nl ident md ml (flat_render outType ts lst mp))))
     @ closing ind nl ident"
  by (auto simp add: flat_part_render [symmetric] flat_part_def closing_def Let_def)

text \<open>
  Claim C8, as stated, fails: the loops over the flat list and over the primitive map
  have no length check, so with \<open>maxlen = 0\<close> every list element is still rendered and no
  ellipsis is written; and the \<^verbatim>\<open>break\<close> of the nested-map loop leaves that loop only, so
  the rendering does not stop there when the node also has children.
\<close>

theorem ValueString_length_counterexample:
  "ValueString noPtr indent_String (Variable ''x'' [] ''[]int'' 0 [] [''a'', ''b'', ''c''] [] [] [])
     False 0 3 0 True = ''[]int {0: a, 1: b, 2: c}'' \<and>
   ValueString noPtr indent_String
     (Variable ''x'' [] ''T'' 0 [] [] [] [(''k1'', leaf ''m'' ''1''), (''k2'', leaf ''n'' ''2'')]
        [leaf ''a'' ''1'', leaf ''b'' ''2''])
     False 0 3 5 True = ''T {k1: 1...a: 1...}''"
  by (simp add: noPtr_def leaf_def digits10.simps)

text \<open>
  Claim C8, amended. In an aggregate node the flat list and the primitive map are
  rendered in full whatever \<open>maxlen\<close> is: the result starts with the type name (if asked
  for), \<^verbatim>\<open> {\<close>, every list element with its index and every map entry. The length bound
  is tested in two loops only, after each rendered entry: the loop over the nested map
  and the loop over the child nodes. At the first entry after which the builder is
  longer than \<open>maxlen\<close>, \<^verbatim>\<open>...\<close> is appended and no further entry of that loop is rendered:
  for a truncated child loop, and for a truncated nested-map loop of a node without
  children, only the closing follows. When no entry takes the builder beyond \<open>maxlen\<close>,
  every entry is rendered. Each entry is the sub-variable's own rendering under the same
  \<open>maxlen\<close>, started from an empty builder, so the bound applies to every node by itself.
\<close>

theorem ValueString_length_bound:
  "ident \<le> md \<and> \<not> (isPtr kd \<and> length kids = 1) \<longrightarrow>
   (let N = ValueString isPtr ind (Variable nm [] ts kd [] lst mp mv kids) nl ident md ml outType;
        b0 = flat_render outType ts lst mp;
        M = MapVar_upto isPtr ind mv nl ident md ml b0;
        bm = MapVar_plain isPtr ind mv nl ident md ml b0;
        K = Kids_upto isPtr ind kids nl ident md ml bm
    in prefix b0 N \<and>
       ((\<forall>j<length mv. int (length (M j)) \<le> ml) \<and> (\<forall>j<length kids. int (length (K j)) \<le> ml) \<longrightarrow>
          N = Kids_plain isPtr ind kids nl ident md ml bm @ closing ind nl ident) \<and>
       (\<forall>n<length kids.
          (\<forall>j<length mv. int (length (M j)) \<le> ml) \<and> (\<forall>j<n. int (length (K j)) \<le> ml) \<and>
          int (length (K n)) > ml \<longrightarrow>
          N = K n @ ''...'' @ closing ind nl ident) \<and>
       (\<forall>n<length mv.
          kids = [] \<and> (\<forall>j<n. int (length (M j)) \<le> ml) \<and> int (length (M n)) > ml \<longrightarrow>
          N = M n @ ''...'' @ closing ind nl ident))"
proof (intro impI)
  assume a: "ident \<le> md \<and> \<not> (isPtr kd \<and> length kids = 1)"
  define b0 where "b0 = flat_render outType ts lst mp"
  define N where "N = ValueString isPtr ind (Variable nm [] ts kd [] lst mp mv kids) nl ident md ml outType"
  define bm where "bm = MapVar_plain isPtr ind mv nl ident md ml b0"
  have N: "N = fst (Kids_loop isPtr ind kids nl ident md ml
                 (fst (MapVar_loop isPtr ind mv nl ident md ml b0))) @ closing ind nl ident"
    using a unfolding N_def b0_def by (intro ValueString_composite) auto
  have 1: "prefix b0 N"
    unfolding N
    using prefix_MapVar_loop [of b0 isPtr ind mv nl ident md ml]
      prefix_Kids_loop [of "fst (MapVar_loop isPtr ind mv nl ident md ml b0)" isPtr ind kids nl ident md ml]
    by (meson prefix_order.trans prefix_prefix)
  have 2: "N = Kids_plain isPtr ind kids nl ident md ml bm @ closing ind nl ident"
    if "\<forall>j<length mv. int (length (MapVar_upto isPtr ind mv nl ident md ml b0 j)) \<le> ml"
      and "\<forall>j<length kids. int (length (Kids_upto isPtr ind kids nl ident md ml bm j)) \<le> ml"
    using that by (simp add: N bm_def MapVar_loop_all_within Kids_loop_all_within)
  have 3: "N = Kids_upto isPtr ind kids nl ident md ml bm n @ ''...'' @ closing ind nl ident"
    if "n < length kids"
      and "\<forall>j<length mv. int (length (MapVar_upto isPtr ind mv nl ident md ml b0 j)) \<le> ml"
      and "\<forall>j<n. int (length (Kids_upto isPtr ind kids nl ident md ml bm j)) \<le> ml"
      and "int (length (Kids_upto isPtr ind kids nl ident md ml bm n)) > ml" for n
    using that by (simp add: N bm_def MapVar_loop_all_within Kids_loop_first_over)
  have 4: "N = MapVar_upto isPtr ind mv nl ident md ml b0 n @ ''...'' @ closing ind nl ident"
    if "n < length mv" and "kids = []"
      and "\<forall>j<n. int (length (MapVar_upto isPtr ind mv nl ident md ml b0 j)) \<le> ml"
      and "int (length (MapVar_upto isPtr ind mv nl ident md ml b0 n)) > ml" for n
    using that by (simp add: N MapVar_loop_first_over)
  show "let N = ValueString isPtr ind (Variable nm [] ts kd [] lst mp mv kids) nl ident md ml outType;
        b0 = flat_render outType ts lst mp;
        M = MapVar_upto isPtr ind mv nl ident md ml b0;
        bm = MapVar_plain isPtr ind mv nl ident md ml b0;
        K = Kids_upto isPtr ind kids nl ident md ml bm
    in prefix b0 N \<and>
       ((\<forall>j<length mv. int (length (M j)) \<le> ml) \<and> (\<forall>j<length kids. int (length (K j)) \<le> ml) \<longrightarrow>
          N = Kids_plain isPtr ind kids nl ident md ml bm @ closing ind nl ident) \<and>
       (\<forall>n<length kids.
          (\<forall>j<length mv. int (length (M j)) \<le> ml) \<and> (\<forall>j<n. int (length (K j)) \<le> ml) \<and>
          int (length (K n)) > ml \<longrightarrow>
          N = K n @ ''...'' @ closing ind nl ident) \<and>
       (\<forall>n<length mv.
          kids = [] \<and> (\<forall>j<n. int (length (M j)) \<le> ml) \<and> int (length (M n)) > ml \<longrightarrow>
          N = M n @ ''...'' @ closing ind nl ident)"
    unfolding Let_def
    using 1 2 3 4 unfolding N_def b0_def bm_def by blast
qed

theorem ValueString_length_bound_witness:
  "ValueString noPtr indent_String (Variable ''x'' [] ''[]int'' 0 [] [''a'', ''b'', ''c''] [] [] [])
     False 0 3 0 True = ''[]int {0: a, 1: b, 2: c}'' \<and>
   ValueString noPtr indent_String
     (Variable ''x'' [] ''T'' 0 [] [] [] [] [leaf ''a'' ''1'', leaf ''b'' ''2'', leaf ''c'' ''3''])
     False 0 3 10 True = ''T {a: 1, b: 2...}'' \<and>
   ValueString noPtr indent_String
     (Variable ''x'' [] ''T'' 0 [] [] [] [] [leaf ''a'' ''1'', leaf ''b'' ''2'', leaf ''c'' ''3''])
     False 0 3 100 True = ''T {a: 1, b: 2, c: 3, }'' \<and>
   ValueString noPtr indent_String
     (Variable ''x'' [] ''T'' 0 [] [] [] [(''k1'', leaf ''m'' ''1''), (''k2'', leaf ''n'' ''2'')] [])
     False 0 3 5 True = ''T {k1: 1...}''"
proof -
  let ?ka = "leaf ''a'' ''1''" and ?kb = "leaf ''b'' ''2''" and ?kc = "leaf ''c'' ''3''"
  let ?ks = "[?ka, ?kb, ?kc]"
  let ?mv = "[(''k1'', leaf ''m'' ''1''), (''k2'', leaf ''n'' ''2'')]"
  have agg: "(0::int) \<le> 3 \<and> \<not> (noPtr 0 \<and> length ([]::Variable list) = 1)"
    "(0::int) \<le> 3 \<and> \<not> (noPtr 0 \<and> length ?ks = 1)"
    by (simp_all add: noPtr_def)
  have fl: "flat_render True ''[]int'' [''a'', ''b'', ''c''] [] = ''[]int {0: a, 1: b, 2: c''"
    "flat_render True ''T'' [] [] = ''T {''"
    by (simp_all add: flat_render_def list_render_def map_render_def digits10.simps)
  have cl: "closing indent_String False 0 = ''}''"
    by (simp add: closing_def)
  have K: "Kids_upto noPtr indent_String ?ks False 0 3 ml ''T {'' 0 = ''T {a: 1''"
    "Kids_upto noPtr indent_String ?ks False 0 3 ml ''T {'' 1 = ''T {a: 1, b: 2''"
    "Kids_upto noPtr indent_String ?ks False 0 3 ml ''T {'' 2 = ''T {a: 1, b: 2, c: 3''"
    "Kids_plain noPtr indent_String ?ks False 0 3 ml ''T {'' = ''T {a: 1, b: 2, c: 3, ''" for ml
    by (simp_all add: Kids_upto_def Kids_entry_def entry_sep_def leaf_def numeral_2_eq_2)
  have M: "MapVar_upto noPtr indent_String ?mv False 0 3 ml ''T {'' 0 = ''T {k1: 1''" for ml
    by (simp add: MapVar_upto_def MapVar_entry_def leaf_def)
  note t1 = ValueString_length_bound [where isPtr = noPtr and ind = indent_String and nl = False
      and ident = 0 and md = 3 and ml = 0 and outType = True and ts = "''[]int''"
      and lst = "[''a'', ''b'', ''c'']" and mp = "[]" and mv = "[]" and kids = "[]"
      and kd = 0 and nm = "''x''", unfolded Let_def, THEN mp, OF agg(1)]
  have r1: "ValueString noPtr indent_String
      (Variable ''x'' [] ''[]int'' 0 [] [''a'', ''b'', ''c''] [] [] []) False 0 3 0 True
      = ''[]int {0: a, 1: b, 2: c}''"
    using t1 [THEN conjunct2, THEN conjunct1] fl cl
    by (simp del: ValueString.simps)
  note t2 = ValueString_length_bound [where isPtr = noPtr and ind = indent_String and nl = False
      and ident = 0 and md = 3 and ml = 10 and outType = True and ts = "''T''"
      and lst = "[]" and mp = "[]" and mv = "[]" and kids = ?ks
      and kd = 0 and nm = "''x''", unfolded Let_def, THEN mp, OF agg(2)]
  have r2: "ValueString noPtr indent_String (Variable ''x'' [] ''T'' 0 [] [] [] [] ?ks)
      False 0 3 10 True = ''T {a: 1, b: 2...}''"
    using t2 [THEN conjunct2, THEN conjunct2, THEN conjunct1, rule_format, of 1] fl cl K
    by (simp del: ValueString.simps)
  note t3 = ValueString_length_bound [where isPtr = noPtr and ind = indent_String and nl = False
      and ident = 0 and md = 3 and ml = 100 and outType = True and ts = "''T''"
      and lst = "[]" and mp = "[]" and mv = "[]" and kids = ?ks
      and kd = 0 and nm = "''x''", unfolded Let_def, THEN mp, OF agg(2)]
  have w3: "\<forall>j<length ?ks. int (length (Kids_upto noPtr indent_String ?ks False 0 3 100 ''T {'' j)) \<le> 100"
    using K [of 100] by (simp add: less_Suc_eq numeral_2_eq_2 del: Kids_upto_def)
  have r3: "ValueString noPtr indent_String (Variable ''x'' [] ''T'' 0 [] [] [] [] ?ks)
      False 0 3 100 True = ''T {a: 1, b: 2, c: 3, }''"
    using t3 [THEN conjunct2, THEN conjunct1] fl cl K w3
    by (simp del: ValueString.simps)
  note t4 = ValueString_length_bound [where isPtr = noPtr and ind = indent_String and nl = False
      and ident = 0 and md = 3 and ml = 5 and outType = True and ts = "''T''"
      and lst = "[]" and mp = "[]" and mv = ?mv and kids = "[]"
      and kd = 0 and nm = "''x''", unfolded Let_def, THEN mp, OF agg(1)]
  have r4: "ValueString noPtr indent_String (Variable ''x'' [] ''T'' 0 [] [] [] ?mv [])
      False 0 3 5 True = ''T {k1: 1...}''"
    using t4 [THEN conjunct2, THEN conjunct2, THEN conjunct2, rule_format, of 0] fl cl M
    by (simp del: ValueString.simps)
  show ?thesis
    using r1 r2 r3 r4 by (simp del: ValueString.simps)
qed

section \<open>Output annotator: which field is rewritten\<close>

lemma Markup_loop_none:
  "(\<forall>i<mx. \<not> looks_like_file (flds ! i)) \<Longrightarrow> Markup_loop vals fjoin flds j mx = flds"
proof (induction vals fjoin flds j mx rule: Markup_loop.induct)
  case (1 vals fjoin flds i mx)
  then show ?case
    by (subst Markup_loop.simps) (simp add: Let_def)
qed

lemma Markup_loop_first:
  "j \<le> i \<Longrightarrow> i < mx \<Longrightarrow> looks_like_file (flds ! i) \<Longrightarrow>
   (\<forall>k. j \<le> k \<and> k < i \<longrightarrow> \<not> looks_like_file (flds ! k)) \<Longrightarrow>
   Markup_loop vals fjoin flds j mx = flds[i := Markup_link vals fjoin (flds ! i)]"
proof (induction vals fjoin flds j mx rule: Markup_loop.induct)
  case (1 vals fjoin flds j mx)
  show ?case
  proof (cases "j = i")
    case True
    with 1 show ?thesis by (subst Markup_loop.simps) (simp add: Let_def)
  next
    case False
    with 1 have lt: "j < i" and nq: "\<not> looks_like_file (flds ! j)" by auto
    have "Markup_loop vals fjoin flds (j + 1) mx = flds[i := Markup_link vals fjoin (flds ! i)]"
      using 1 lt nq by (intro "1.IH") auto
    then show ?thesis
      using 1 lt nq by (subst Markup_loop.simps) (simp add: Let_def)
  qed
qed

text \<open>
  Claim C5, as stated, fails in its second half: a line with no qualifying field is not
  returned byte for byte. The function always returns the fields joined by single
  spaces, so runs of white space collapse and leading white space is lost.
\<close>

theorem MarkupCmdOutput_unchanged_counterexample:
  "\<not> looks_like_file ''a'' \<and> \<not> looks_like_file ''b'' \<and>
   MarkupCmdOutput Fields Map.empty join2 ''a  b'' = ''a b'' \<and>
   MarkupCmdOutput Fields Map.empty join2 ''  at line 3'' = ''at line 3'' \<and>
   MarkupCmdOutput Fields Map.empty join2 ''a  b'' \<noteq> ''a  b''"
  by code_simp

text \<open>
  Claim C5, amended. Whatever list of fields \<^verbatim>\<open>bytes.Fields\<close> returns for the line: a
  line without fields is returned as it is. Otherwise the result is the fields joined
  by single spaces, with at most one field replaced: the first of the first two fields
  that contains \<^verbatim>\<open>.\<close> or \<^verbatim>\<open>/\<close> becomes its link, and when neither qualifies no field is
  replaced. A line with fields and no qualifying one is therefore returned byte for byte
  exactly when it is already its own fields joined by single spaces.
\<close>

theorem MarkupCmdOutput_one_field:
  "(fieldsf out = [] \<longrightarrow> MarkupCmdOutput fieldsf vals fjoin out = out) \<and>
   (fieldsf out \<noteq> [] \<and> (\<forall>i < min (length (fieldsf out)) 2. \<not> looks_like_file (fieldsf out ! i)) \<longrightarrow>
      MarkupCmdOutput fieldsf vals fjoin out = Join (fieldsf out) '' '' \<and>
      (MarkupCmdOutput fieldsf vals fjoin out = out \<longleftrightarrow> out = Join (fieldsf out) '' '')) \<and>
   (\<forall>i < min (length (fieldsf out)) 2.
      looks_like_file (fieldsf out ! i) \<and> (\<forall>k<i. \<not> looks_like_file (fieldsf out ! k)) \<longrightarrow>
      MarkupCmdOutput fieldsf vals fjoin out =
        Join ((fieldsf out)[i := Markup_link vals fjoin (fieldsf out ! i)]) '' '')"
proof (intro conjI impI allI)
  assume "fieldsf out = []"
  then show "MarkupCmdOutput fieldsf vals fjoin out = out"
    by (simp add: MarkupCmdOutput_def)
next
  assume a: "fieldsf out \<noteq> [] \<and>
    (\<forall>i < min (length (fieldsf out)) 2. \<not> looks_like_file (fieldsf out ! i))"
  then show j: "MarkupCmdOutput fieldsf vals fjoin out = Join (fieldsf out) '' ''"
    by (simp add: MarkupCmdOutput_def Markup_loop_none)
  show "MarkupCmdOutput fieldsf vals fjoin out = out \<longleftrightarrow> out = Join (fieldsf out) '' ''"
    unfolding j by auto
next
  fix i
  assume i: "i < min (length (fieldsf out)) 2"
    and q: "looks_like_file (fieldsf out ! i) \<and> (\<forall>k<i. \<not> looks_like_file (fieldsf out ! k))"
  then have "fieldsf out \<noteq> []" by auto
  moreover have "Markup_loop vals fjoin (fieldsf out) 0 (min (length (fieldsf out)) 2) =
      (fieldsf out)[i := Markup_link vals fjoin (fieldsf out ! i)]"
    using i q by (intro Markup_loop_first) auto
  ultimately show "MarkupCmdOutput fieldsf vals fjoin out =
      Join ((fieldsf out)[i := Markup_link vals fjoin (fieldsf out ! i)]) '' ''"
    by (simp add: MarkupCmdOutput_def Let_def)
qed

theorem MarkupCmdOutput_one_field_witness:
  "Fields ''   '' = [] \<and> MarkupCmdOutput Fields Map.empty join2 ''   '' = ''   '' \<and>
   Fields ''a  b'' = [''a'', ''b''] \<and> \<not> looks_like_file ''a'' \<and> \<not> looks_like_file ''b'' \<and>
   MarkupCmdOutput Fields Map.empty join2 ''a  b'' = Join [''a'', ''b''] '' '' \<and>
   MarkupCmdOutput Fields Map.empty join2 ''a  b'' \<noteq> ''a  b'' \<and>
   Fields ''all good'' = [''all'', ''good''] \<and>
   \<not> looks_like_file ''all'' \<and> \<not> looks_like_file ''good'' \<and>
   MarkupCmdOutput Fields Map.empty join2 ''all good'' = ''all good'' \<and>
   Fields ''err: m.go:4:7  bad'' = [''err:'', ''m.go:4:7'', ''bad''] \<and>
   \<not> looks_like_file ''err:'' \<and> looks_like_file ''m.go:4:7'' \<and>
   MarkupCmdOutput Fields Map.empty join2 ''err: m.go:4:7  bad'' =
     Join [''err:'', Markup_link Map.empty join2 ''m.go:4:7'', ''bad''] '' ''"
proof -
  have f: "Fields ''   '' = []" "Fields ''a  b'' = [''a'', ''b'']"
    "Fields ''all good'' = [''all'', ''good'']"
    "Fields ''err: m.go:4:7  bad'' = [''err:'', ''m.go:4:7'', ''bad'']"
    by code_simp+
  have q: "\<not> looks_like_file ''a''" "\<not> looks_like_file ''b''" "\<not> looks_like_file ''err:''"
    "looks_like_file ''m.go:4:7''" "\<not> looks_like_file ''all''" "\<not> looks_like_file ''good''"
    by (simp_all add: looks_like_file_def)
  have a: "\<forall>i < min (length [''a'', ''b'']) 2. \<not> looks_like_file ([''a'', ''b''] ! i)"
    "\<forall>i < min (length [''all'', ''good'']) 2. \<not> looks_like_file ([''all'', ''good''] ! i)"
    using q by (simp_all add: less_Suc_eq numeral_2_eq_2 nth_Cons')
  have j: "Join [''all'', ''good''] '' '' = ''all good''" "''a  b'' \<noteq> Join [''a'', ''b''] '' ''"
    by simp_all
  note t1 = MarkupCmdOutput_one_field [where out = "''   ''" and vals = Map.empty
      and fjoin = join2 and fieldsf = Fields]
  note t2 = MarkupCmdOutput_one_field [where out = "''a  b''" and vals = Map.empty
      and fjoin = join2 and fieldsf = Fields]
  note t3 = MarkupCmdOutput_one_field [where out = "''all good''" and vals = Map.empty
      and fjoin = join2 and fieldsf = Fields]
  note t4 = MarkupCmdOutput_one_field [where out = "''err: m.go:4:7  bad''" and vals = Map.empty
      and fjoin = join2 and fieldsf = Fields, THEN conjunct2, THEN conjunct2, rule_format, of 1]
  have r1: "MarkupCmdOutput Fields Map.empty join2 ''   '' = ''   ''"
    using t1 f by (simp del: Join.simps)
  have r2: "MarkupCmdOutput Fields Map.empty join2 ''a  b'' = Join [''a'', ''b''] '' ''"
    "MarkupCmdOutput Fields Map.empty join2 ''a  b'' \<noteq> ''a  b''"
    using t2 f a j by (simp_all del: Join.simps)
  have r3: "MarkupCmdOutput Fields Map.empty join2 ''all good'' = ''all good''"
    using t3 f a j by (simp del: Join.simps)
  have r4: "MarkupCmdOutput Fields Map.empty join2 ''err: m.go:4:7  bad'' =
     Join [''err:'', Markup_link Map.empty join2 ''m.go:4:7'', ''bad''] '' ''"
    using t4 f q by (simp del: Join.simps)
  show ?thesis
    using f q r1 r2 r3 r4 by (simp del: Join.simps)
qed

section \<open>The version-control filter on names with two foreign system names\<close>

text \<open>
  Claim C9. The removal at line 467 sits inside the loop over all systems and is not
  followed by a \<^verbatim>\<open>break\<close>: a name that contains two systems other than the active one
  removes index \<open>i\<close> twice, and the second removal deletes the neighbour that had been
  kept, or panics when the name was the last one. The spec's own example is filtered as
  the claim says; the three other runs are not: a name with the active system and a name
  with no system at all are removed.
\<close>

theorem VersCtrlCmdNames_double_removal:
  "VersCtrlCmdNames [''Git'', ''SVN''] ''Git'' [''Commit Git'', ''Commit SVN'', ''List Dir'']
     = Inr [''Commit Git'', ''List Dir''] \<and>
   VersCtrlCmdNames [''Git'', ''SVN'', ''Hg''] ''Git''
       [''Mirror SVN to Hg'', ''Commit Git'', ''List Dir'']
     = Inr [''List Dir''] \<and>
   VersCtrlCmdNames [''Git'', ''SVN''] ''Hg'' [''Git SVN Bridge'', ''List Dir''] = Inr [] \<and>
   VersCtrlCmdNames [''Git'', ''SVN''] ''Hg'' [''List Dir'', ''Git SVN Bridge'']
     = Inl SliceBoundsOutOfRange"
  by (simp add: VersCtrlCmdNames_def numeral_3_eq_3 numeral_2_eq_2)

section \<open>Sequential execution stops at the first failing step\<close>



lemma vals_emit [simp]: "ArgVarVals (emit ev w) = ArgVarVals w"
  by (simp add: emit_def)

lemma Buf_AppendCmdOut: "(Buf (AppendCmdOut e w cm out) = None) = (Buf cm = None)"
  by (simp add: AppendCmdOut_def split: option.splits)

lemma Cmds_AppendCmdOut [simp]: "Cmds (AppendCmdOut e w cm out) = Cmds cm"
  by (simp add: AppendCmdOut_def split: option.splits)

lemma Wait_AppendCmdOut [simp]: "Wait (AppendCmdOut e w cm out) = Wait cm"
  by (simp add: AppendCmdOut_def split: option.splits)







lemma prepared_cong: "ArgVarVals w' = ArgVarVals w \<Longrightarrow> prepared e w' cma = prepared e w cma"
  by (simp add: prepared_def)








section \<open>Loading the command list resets it first\<close>

text \<open>
  Claim C3, as stated, fails: \<^verbatim>\<open>OpenJSON\<close> empties the receiver (line 503) before it reads
  the file, so after a failed read, and after a decoder that fails without storing
  anything, the list that was in memory is gone.
\<close>

theorem OpenJSON_unchanged_counterexample:
  "OpenJSON no_file bad_json ''cmds.json'' [Pull_Git] =
     (Some ''open cmds.json: no such file or directory'', []) \<and>
   OpenJSON truncated_file bad_json ''cmds.json'' [Pull_Git] =
     (Some ''unexpected end of JSON input'', []) \<and>
   snd (OpenJSON no_file bad_json ''cmds.json'' [Pull_Git]) \<noteq> [Pull_Git]"
  by (simp add: OpenJSON_def no_file_def truncated_file_def bad_json_def)

text \<open>
  Claim C3, amended. For every file name, when the file cannot be read \<^verbatim>\<open>OpenJSON\<close>
  returns the read error and leaves the receiver empty, whatever it held; when the file
  is read, the error and the receiver are what the decoder returns and leaves when it
  decodes into the emptied list. The outcome never depends on the receiver's value
  before the call.
\<close>

theorem OpenJSON_resets:
  "(\<forall>err. ReadFile filename = Inl err \<longrightarrow>
      OpenJSON ReadFile Unmarshal filename cm = (Some err, [])) \<and>
   (\<forall>b. ReadFile filename = Inr b \<longrightarrow>
      OpenJSON ReadFile Unmarshal filename cm = Unmarshal b []) \<and>
   OpenJSON ReadFile Unmarshal filename cm = OpenJSON ReadFile Unmarshal filename cm'"
  by (simp add: OpenJSON_def)

theorem OpenJSON_resets_witness:
  "no_file ''cmds.json'' = Inl ''open cmds.json: no such file or directory'' \<and>
   OpenJSON no_file bad_json ''cmds.json'' [Pull_Git, Commit_Git] =
     (Some ''open cmds.json: no such file or directory'', []) \<and>
   truncated_file ''cmds.json'' = Inr ''[{'' \<and>
   OpenJSON truncated_file bad_json ''cmds.json'' [Pull_Git, Commit_Git] = bad_json ''[{'' [] \<and>
   OpenJSON truncated_file bad_json ''cmds.json'' [Pull_Git] =
     OpenJSON truncated_file bad_json ''cmds.json'' []"
proof -
  have n: "no_file ''cmds.json'' = Inl ''open cmds.json: no such file or directory''"
    by (simp add: no_file_def)
  have t: "truncated_file ''cmds.json'' = Inr ''[{''"
    by (simp add: truncated_file_def)
  show ?thesis
    using n t
      OpenJSON_resets [of no_file "''cmds.json''" bad_json "[Pull_Git, Commit_Git]"]
      OpenJSON_resets [of truncated_file "''cmds.json''" bad_json "[Pull_Git, Commit_Git]"]
      OpenJSON_resets [of truncated_file "''cmds.json''" bad_json "[Pull_Git]" "[]"]
      OpenJSON_resets [of truncated_file "''cmds.json''" bad_json "[]" "[]"]
    by simp
qed

section \<open>The status report of a run\<close>

text \<open>
  Claim C4. \<^verbatim>\<open>RunStatus\<close> panics on a command without a buffer, which is the only kind
  that \<^verbatim>\<open>RunAfterPrompts\<close> passes to \<^verbatim>\<open>RunNoBuf\<close>: line 329 calls \<^verbatim>\<open>AppendTextLine\<close> through the
  nil \<^verbatim>\<open>cm.Buf\<close>, where \<^verbatim>\<open>AppendCmdOut\<close> returns early. It also panics on an output slice
  whose capacity is below \<^verbatim>\<open>CmdOutStatusLen\<close>, which line 315 slices without a test. The
  third run is the \<^verbatim>\<open>Pull Git\<close> entry of \<^verbatim>\<open>StdCmds\<close> as it is declared: the process is
  launched and the report panics.
\<close>

theorem RunStatus_panics:
  "RunStatus sys_ok Pull_Git ''git pull'' None None world0 = Inl (NilPointerDereference, world0) \<and>
   RunStatus sys_ok Commit_Git ''git commit'' None (Some \<lparr>arr = ''ok'', blen = 2\<rparr>) world0
     = Inl (SliceBoundsOutOfRange, world0) \<and>
   RunAfterPrompts sys_ok Pull_Git world0
     = Inl (NilPointerDereference,
            world0\<lparr>CmdNoUserPrompt := False, trace := [EvExec ''git'' [''pull'']]\<rparr>)"
  by code_simp

section \<open>Running a command with prompting suppressed\<close>

text \<open>
  Claim C1. \<^verbatim>\<open>Run\<close> calls \<^verbatim>\<open>PromptUser\<close> after the \<^verbatim>\<open>if\<close> of line 208 in every case: there
  is no \<^verbatim>\<open>return\<close> and no \<^verbatim>\<open>else\<close>. With \<^verbatim>\<open>CmdNoUserPrompt\<close> set, the \<^verbatim>\<open>Commit Git\<close> entry of
  \<^verbatim>\<open>StdCmds\<close> is run with the value supplied beforehand, then the user is prompted all
  the same, and when the prompt is answered the steps run a second time; when it is
  dismissed the steps have run once, after which the prompt was still opened.
\<close>

theorem Run_prompts_despite_suppression:
  "CmdNoUserPrompt world0 \<and>
   HasPrompts sys_ok Commit_Git = ([''{PromptString1}''], True) \<and>
   trace (world_of (Run sys_ok Commit_Git world0)) =
     [EvChdir ''/proj/src'', EvExec ''git'' [''commit'', ''-am'', ''msg''],
      EvStatus ''git commit -am msg '', EvChdir ''/proj'',
      EvPrompt ''{PromptString1}'',
      EvChdir ''/proj/src'', EvExec ''git'' [''commit'', ''-am'', ''typed''],
      EvStatus ''git commit -am typed '', EvChdir ''/proj''] \<and>
   trace (world_of (Run sys_dismiss Commit_Git world0)) =
     [EvChdir ''/proj/src'', EvExec ''git'' [''commit'', ''-am'', ''msg''],
      EvStatus ''git commit -am msg '', EvChdir ''/proj'',
      EvPrompt ''{PromptString1}'']"
  by code_simp

theorem Run_prompts_despite_suppression_witness:
  "length (execs (world_of (Run sys_ok Commit_Git world0))) = 2 \<and>
   EvPrompt ''{PromptString1}'' \<in> set (trace (world_of (Run sys_ok Commit_Git world0))) \<and>
   length (execs (world_of (Run sys_dismiss Commit_Git world0))) = 1 \<and>
   EvPrompt ''{PromptString1}'' \<in> set (trace (world_of (Run sys_dismiss Commit_Git world0)))"
  using Run_prompts_despite_suppression by (simp add: execs_def)

section \<open>Binding leaves the step as it was\<close>

lemma slice_elems_update:
  "(case src of NilSlice \<Rightarrow> True | Slice a m \<Rightarrow> a \<noteq> dst) \<Longrightarrow>
   slice_elems (h[dst := x]) src = slice_elems h src"
  by (cases src) auto

lemma BindArgs_fill_frame:
  assumes "dst < length h" and "case src of NilSlice \<Rightarrow> True | Slice a m \<Rightarrow> a \<noteq> dst"
  shows "length (BindArgs_fill bind src dst i n h) = length h \<and>
         (\<forall>a. a \<noteq> dst \<longrightarrow> BindArgs_fill bind src dst i n h ! a = h ! a) \<and>
         length (BindArgs_fill bind src dst i n h ! dst) = length (h ! dst) \<and>
         (\<forall>j < length (h ! dst). BindArgs_fill bind src dst i n h ! dst ! j =
            (if i \<le> j \<and> j < i + n then bind (slice_elems h src ! j) else h ! dst ! j))"
  using assms
proof (induction n arbitrary: i h)
  case 0
  then show ?case by auto
next
  case (Suc n)
  let ?h1 = "h[dst := (h ! dst)[i := bind (slice_elems h src ! i)]]"
  have s: "slice_elems ?h1 src = slice_elems h src"
    using Suc.prems(2) by (rule slice_elems_update)
  have d: "dst < length ?h1" using Suc.prems by simp
  note IH = Suc.IH [OF d Suc.prems(2), of "i + 1"]
  show ?case
    using IH Suc.prems(1) by (auto simp: Let_def s nth_list_update dest: le_antisym not_less_eq_eq [THEN iffD1])
qed

text \<open>
  Claim C10, as stated, fails for a step without arguments: \<^verbatim>\<open>BindArgs\<close> returns the nil
  slice (lines 94-96) and allocates nothing.
\<close>

theorem BindArgs_nil_counterexample:
  "slice_len (Args_r Run_step) = 0 \<and>
   BindArgs_store bind0 store0 Run_step = (NilSlice, store0) \<and>
   fst (BindArgs_store bind0 store0 Run_step) \<noteq> Slice (length store0) 0"
  by (simp add: BindArgs_store_def Run_step_def)

text \<open>
  Claim C10, amended. For every step whose argument slice is valid in the store,
  \<^verbatim>\<open>PrepCmd\<close> (through \<^verbatim>\<open>BindArgs\<close>) leaves every array that existed before the call as it
  was, so the step's arguments are the same elements in the same order, placeholders
  unresolved; the program name is the bound \<^verbatim>\<open>Cmd\<close>. For a step with at least one
  argument the resolved list is a slice of a newly allocated array, of the same length,
  holding the bound arguments in order; for a step without arguments the result is the
  nil slice and nothing is allocated. Neither function assigns to a field of the step.
\<close>

theorem PrepCmd_store_frame:
  assumes "wf_slice h (Args_r cm)"
  shows "case PrepCmd_store bind h cm of ((cstr, args), cmdstr, h') \<Rightarrow>
           cstr = bind (Cmd_r cm) \<and>
           take (length h) h' = h \<and>
           slice_elems h' (Args_r cm) = slice_elems h (Args_r cm) \<and>
           slice_elems h' args = map bind (slice_elems h (Args_r cm)) \<and>
           (if slice_len (Args_r cm) = 0 then args = NilSlice \<and> h' = h \<and> cmdstr = cstr
            else args = Slice (length h) (slice_len (Args_r cm)) \<and>
                 length h' = length h + 1 \<and>
                 cmdstr = cstr @ '' '' @ Join (map bind (slice_elems h (Args_r cm))) '' '')"
proof (cases "slice_len (Args_r cm) = 0")
  case True
  then have "slice_elems h (Args_r cm) = []"
    by (cases "Args_r cm") auto
  with True show ?thesis
    by (simp add: PrepCmd_store_def BindArgs_store_def Let_def)
next
  case False
  then obtain a sz where src: "Args_r cm = Slice a sz" "sz \<noteq> 0"
    by (cases "Args_r cm") auto
  with assms have wf: "a < length h" "sz \<le> length (h ! a)" by auto
  let ?h1 = "h @ [replicate sz []]"
  let ?h' = "BindArgs_fill bind (Slice a sz) (length h) 0 sz ?h1"
  have fr: "length ?h' = length ?h1 \<and>
         (\<forall>x. x \<noteq> length h \<longrightarrow> ?h' ! x = ?h1 ! x) \<and>
         length (?h' ! length h) = length (?h1 ! length h) \<and>
         (\<forall>j < length (?h1 ! length h). ?h' ! length h ! j =
            (if 0 \<le> j \<and> j < 0 + sz then bind (slice_elems ?h1 (Slice a sz) ! j)
             else ?h1 ! length h ! j))"
    using wf by (intro BindArgs_fill_frame) auto
  have old: "take (length h) ?h' = h"
    using fr by (intro nth_equalityI) (auto simp: nth_append)
  have e1: "slice_elems ?h1 (Slice a sz) = take sz (h ! a)"
    using wf by (simp add: nth_append)
  have e2: "slice_elems ?h' (Slice a sz) = take sz (h ! a)"
    using fr wf by (simp add: nth_append)
  have ha: "?h1 ! a = h ! a"
    using wf by (simp add: nth_append)
  have new: "take sz (?h' ! length h) = map bind (take sz (h ! a))"
  proof (rule nth_equalityI)
    show "length (take sz (?h' ! length h)) = length (map bind (take sz (h ! a)))"
      using fr wf by simp
  next
    fix i assume "i < length (take sz (?h' ! length h))"
    then have i: "i < sz" by simp
    then have "?h' ! length h ! i = bind (take sz (?h1 ! a) ! i)"
      using fr by simp
    then show "take sz (?h' ! length h) ! i = map bind (take sz (h ! a)) ! i"
      using i wf ha by simp
  qed
  show ?thesis
    using src old e2 new fr
    by (simp add: PrepCmd_store_def BindArgs_store_def Let_def)
qed

theorem PrepCmd_store_frame_witness:
  "wf_slice store0 (Args_r Fmt_step) \<and>
   slice_elems store0 (Args_r Fmt_step) = [''-w'', ''{FileDirPath}/a.go''] \<and>
   fst (fst (PrepCmd_store bind0 store0 Fmt_step)) = ''gofmt'' \<and>
   snd (fst (PrepCmd_store bind0 store0 Fmt_step)) = Slice 2 2 \<and>
   fst (snd (PrepCmd_store bind0 store0 Fmt_step)) = ''gofmt -w /proj/src/a.go'' \<and>
   take 2 (snd (snd (PrepCmd_store bind0 store0 Fmt_step))) = store0 \<and>
   slice_elems (snd (snd (PrepCmd_store bind0 store0 Fmt_step))) (Args_r Fmt_step) =
     [''-w'', ''{FileDirPath}/a.go''] \<and>
   slice_elems (snd (snd (PrepCmd_store bind0 store0 Fmt_step))) (Slice 2 2) =
     [''-w'', ''/proj/src/a.go'']"
proof -
  have wf: "wf_slice store0 (Args_r Fmt_step)"
    by (simp add: store0_def Fmt_step_def)
  have l: "length store0 = 2" "slice_len (Args_r Fmt_step) = 2" "Cmd_r Fmt_step = ''gofmt''"
    by (simp_all add: store0_def Fmt_step_def)
  have el: "slice_elems store0 (Args_r Fmt_step) = [''-w'', ''{FileDirPath}/a.go'']"
    by (simp add: store0_def Fmt_step_def)
  have b: "bind0 ''gofmt'' = ''gofmt''" "bind0 ''-w'' = ''-w''"
    "bind0 ''{FileDirPath}/a.go'' = ''/proj/src/a.go''"
    by code_simp+
  obtain cstr args cmdstr h' where r: "PrepCmd_store bind0 store0 Fmt_step = ((cstr, args), cmdstr, h')"
    by (metis prod.exhaust)
  show ?thesis
    using PrepCmd_store_frame [OF wf, of bind0] wf
    by (auto simp add: r l el b simp del: wf_slice.simps)
qed

end
